theory Spec2Isabelle
  imports Complex_Main "HOL-Library.Sublist"
begin

section \<open>JavaScript values used by the pipeline\<close>

text \<open>
  A JavaScript string is a sequence of UTF-16 code units; a code unit is modelled as a
  natural number. \<open>str\<close> turns an ASCII literal into such a sequence.
\<close>

type_synonym jsstring = "nat list"

definition str :: "string \<Rightarrow> jsstring" where
  "str s = map of_char s"

definition en_dash :: nat where
  "en_dash = 8211"

text \<open>
  A JavaScript number is an IEEE 754 binary64 value: a finite value, given by the rational
  it stands for, one of the two infinities, or NaN. The sign of zero is not modelled.
\<close>

datatype jsnum = Fin rat | PInf | NInf | NaN

text \<open>
  \<open>b64 x\<close> is the binary64 value of the exact result \<open>x\<close> of an operation: \<open>x\<close>
  rounded to the nearest value with a 53-bit significand, a tie going to the even
  significand; below 2 to the power -1022 the values are spaced 2 to the power -1074
  apart, and a result that rounds to 2 to the power 1024 or more in magnitude is an
  infinity. \<open>pow2 k\<close> is 2 to the power \<open>k\<close>.
\<close>

function log2_int :: "int \<Rightarrow> int" where
  "log2_int n = (if n < 2 then 0 else 1 + log2_int (n div 2))"
  by pat_completeness auto
termination
  by (relation "measure nat") auto

declare log2_int.simps [simp del]

function pow2 :: "int \<Rightarrow> rat" where
  "pow2 k = (if k = 0 then 1 else if 0 < k then 2 * pow2 (k - 1) else pow2 (k + 1) / 2)"
  by pat_completeness auto
termination
  by (relation "measure (\<lambda>k. nat \<bar>k\<bar>)") auto

declare pow2.simps [simp del]

text \<open>For \<open>a > 0\<close>, the integer \<open>e\<close> with \<open>pow2 e \<le> a < pow2 (e + 1)\<close>.\<close>

definition ilog2 :: "rat \<Rightarrow> int" where
  "ilog2 a =
     (let (p, q) = quotient_of a;
          e0 = log2_int p - log2_int q
      in if pow2 e0 \<le> a then e0 else e0 - 1)"

definition round_even :: "rat \<Rightarrow> int" where
  "round_even y =
     (let f = \<lfloor>y\<rfloor>; d = y - of_int f
      in if d < 1 / 2 then f else if 1 / 2 < d then f + 1 else if even f then f else f + 1)"

text \<open>
  With \<open>e\<close> the exponent of \<open>\<bar>x\<bar>\<close> (at least \<open>-1022\<close>), the values near \<open>x\<close> are the
  multiples of \<open>q = pow2 (e - 52)\<close>. Only a value of exponent 1023 or more can round
  to \<open>pow2 1024\<close> or more.
\<close>

definition b64 :: "rat \<Rightarrow> jsnum" where
  "b64 x =
     (if x = 0 then Fin 0
      else
        (let a = \<bar>x\<bar>;
             e = max (ilog2 a) (- 1022);
             q = pow2 (e - 52);
             r = of_int (round_even (a / q)) * q
         in if e < 1023 then Fin (if 0 < x then r else - r)
            else if pow2 1024 \<le> r then (if 0 < x then PInf else NInf)
            else Fin (if 0 < x then r else - r)))"

fun js_add :: "jsnum \<Rightarrow> jsnum \<Rightarrow> jsnum" where
  "js_add NaN y = NaN"
| "js_add x NaN = NaN"
| "js_add (Fin a) (Fin b) = b64 (a + b)"
| "js_add PInf NInf = NaN"
| "js_add NInf PInf = NaN"
| "js_add PInf y = PInf"
| "js_add x PInf = PInf"
| "js_add NInf y = NInf"
| "js_add x NInf = NInf"

text \<open>\<open>ToNumber\<close> on a property that holds a number or is missing (\<open>undefined\<close>).\<close>

fun ToNumber :: "jsnum option \<Rightarrow> jsnum" where
  "ToNumber None = NaN"
| "ToNumber (Some n) = n"

text \<open>The operator \<open>s + v\<close> with a number on the left.\<close>

definition js_plus :: "jsnum \<Rightarrow> jsnum option \<Rightarrow> jsnum" where
  "js_plus s v = js_add s (ToNumber v)"

text \<open>The operator \<open>x / xs.length\<close>: the divisor is an array length.\<close>

fun js_div_length :: "jsnum \<Rightarrow> nat \<Rightarrow> jsnum" where
  "js_div_length NaN n = NaN"
| "js_div_length PInf n = PInf"
| "js_div_length NInf n = NInf"
| "js_div_length (Fin a) n =
     (if n = 0 then (if a = 0 then NaN else if 0 < a then PInf else NInf)
      else b64 (a / of_nat n))"

text \<open>
  \<open>Math.round\<close>: the nearest integer, a tie going up. On a binary64 value the result is
  a binary64 value, so nothing is rounded a second time.
\<close>

fun Math_round :: "jsnum \<Rightarrow> jsnum" where
  "Math_round (Fin a) = Fin (of_int \<lfloor>a + 1 / 2\<rfloor>)"
| "Math_round x = x"

datatype jsval =
    JNull
  | JBool bool
  | JNum jsnum
  | JStr jsstring
  | JArr "jsval list"
  | JObj "(jsstring \<times> jsval) list"

text \<open>
  The object parsed from the synthesis response: its own properties in insertion order.
  An assignment \<open>o.k = v\<close> replaces the value of an existing property in place and
  appends a new one.
\<close>

type_synonym report = "(jsstring \<times> jsval) list"

fun set_prop :: "jsstring \<Rightarrow> jsval \<Rightarrow> report \<Rightarrow> report" where
  "set_prop k v [] = [(k, v)]"
| "set_prop k v ((k', v') # r) =
     (if k' = k then (k, v) # r else (k', v') # set_prop k v r)"

definition get_prop :: "report \<Rightarrow> jsstring \<Rightarrow> jsval option" where
  "get_prop r k = map_of r k"

text \<open>
  The object parsed from a chunk response. A property is \<open>None\<close> when the response
  omits it (\<open>undefined\<close> in the source); otherwise \<open>pos\<close>, \<open>neg\<close>, \<open>neu\<close> hold
  numbers and \<open>praise\<close>, \<open>pain\<close>, \<open>themes\<close> hold arrays of strings. An object that
  gives \<open>pos\<close>, \<open>neg\<close> or \<open>neu\<close> a value that is not a number (on a string, \<open>+\<close>
  concatenates), or a list property a value that is not an array of strings, is outside
  this model.
\<close>

record partial =
  pos :: "jsnum option"
  neg :: "jsnum option"
  neu :: "jsnum option"
  praise :: "jsstring list option"
  pain :: "jsstring list option"
  themes :: "jsstring list option"

text \<open>
  What \<open>JSON.parse\<close> gives for a chunk response: \<open>null\<close>, or a value whose six properties
  the route reads. A parsed number, string, boolean or array has none of the six properties
  and reads as the object with every property missing.
\<close>

datatype parsed = PNull | PObj partial

record aggregate =
  posAvg :: jsnum
  negAvg :: jsnum
  neuAvg :: jsnum
  praise_agg :: "jsstring list"
  pain_agg :: "jsstring list"
  themes_agg :: "jsstring list"

section \<open>The environment: the model client and the JSON built-ins\<close>

text \<open>
  \<open>generateContent\<close> is the remote model: given the number of calls made before and
  the prompt, it rejects with a message (\<open>Inl\<close>) or gives the response text (\<open>Inr\<close>);
  \<open>answered_at n\<close> is the time at which the answer to call number \<open>n\<close> arrives.
  \<open>JSON.parse\<close> throws with a message (\<open>Inl\<close>) or returns the parsed value; it is given
  once for each of the two shapes the source reads its result at.
\<close>

record env =
  generateContent :: "nat \<Rightarrow> jsstring \<Rightarrow> jsstring + jsstring"
  answered_at :: "nat \<Rightarrow> nat"
  JSON_parse_partial :: "jsstring \<Rightarrow> jsstring + parsed"
  JSON_parse_report :: "jsstring \<Rightarrow> jsstring + report"
  JSON_stringify :: "aggregate \<Rightarrow> jsstring"

section \<open>String operations\<close>

definition join :: "jsstring \<Rightarrow> jsstring list \<Rightarrow> jsstring" where
  "join sep xs = concat (case xs of [] \<Rightarrow> [] | y # ys \<Rightarrow> y # map (\<lambda>z. sep @ z) ys)"

fun show_nat :: "nat \<Rightarrow> jsstring" where
  "show_nat n = (if n < 10 then [48 + n] else show_nat (n div 10) @ [48 + n mod 10])"

text \<open>
  Case-insensitive matching of a regular expression without the \<open>u\<close> flag compares
  canonical (upper-case) code units, and a code unit outside ASCII never canonicalises to
  an ASCII one; for the ASCII patterns of this program only the ASCII letters matter.
\<close>

definition canon :: "nat \<Rightarrow> nat" where
  "canon c = (if 97 \<le> c \<and> c \<le> 122 then c - 32 else c)"

definition match_at :: "(nat \<Rightarrow> nat) \<Rightarrow> jsstring \<Rightarrow> jsstring \<Rightarrow> bool" where
  "match_at f pat s =
     (length pat \<le> length s \<and> map f (take (length pat) s) = map f pat)"

text \<open>
  \<open>s.replace(/pat/g, "")\<close> for a literal pattern: the matches are found from left to
  right, without overlap, and deleted.
\<close>

function replace_all :: "(nat \<Rightarrow> nat) \<Rightarrow> jsstring \<Rightarrow> jsstring \<Rightarrow> jsstring" where
  "replace_all f pat s =
     (if s = [] then []
      else if pat \<noteq> [] \<and> match_at f pat s then replace_all f pat (drop (length pat) s)
      else hd s # replace_all f pat (tl s))"
  by pat_completeness auto
termination
  by (relation "measure (\<lambda>(f, pat, s). length s)") auto

declare replace_all.simps [simp del]

text \<open>The white space and line terminators that \<open>trim\<close> removes.\<close>

definition is_ws :: "nat \<Rightarrow> bool" where
  "is_ws c =
     (c \<in> {9, 10, 11, 12, 13, 32, 160, 5760, 8232, 8233, 8239, 8287, 12288, 65279}
      \<or> (8192 \<le> c \<and> c \<le> 8202))"

definition trim :: "jsstring \<Rightarrow> jsstring" where
  "trim s = rev (dropWhile is_ws (rev (dropWhile is_ws s)))"

section \<open>Prompts\<close>

definition buildChunkPrompt :: "jsstring list \<Rightarrow> jsstring" where
  \<open>buildChunkPrompt chunk =
    (let block = join [10] (map (\<lambda>(i, c). show_nat (i + 1) @ str ''. '' @ c) (enumerate 0 chunk))
     in [10] @ join [10] [
      str ''Analyze these YouTube comments and return STRICT JSON:'',
      str '''',
      str ''{'',
      str '' "pos": number,'',
      str '' "neg": number,'',
      str '' "neu": number,'',
      str '' "praise": ["string"],'',
      str '' "pain": ["string"],'',
      str '' "themes": ["string"]'',
      str ''}'',
      str '''',
      str ''Extract:'',
      str ''- estimated positive %'',
      str ''- estimated negative %'',
      str ''- estimated neutral %'',
      str ''- 5 short praise bullets'',
      str ''- 5 short pain bullets'',
      str ''- 5 short audience themes'',
      str '''',
      str ''COMMENTS:''] @ [10] @ block @ [10])\<close>

definition buildPremiumPrompt :: "env \<Rightarrow> aggregate \<Rightarrow> jsstring" where
  \<open>buildPremiumPrompt e aggregate =
    [10] @ join [10] [
      str ''You are a YouTube audience intelligence engine.'',
      str '''',
      str ''Analyze the provided aggregated comment summaries and return valid JSON only.'',
      str ''Do not use markdown or backticks.'',
      str '''',
      str ''Output premium, insight-dense analysis with clear audience patterns and strategic value.'',
      str '''',
      str ''Required JSON fields:'',
      str ''- positivePercentage (number)'',
      str ''- negativePercentage (number)'',
      str ''- neutralPercentage (number)'',
      str '''',
      str ''- sentimentSummary_premium (5'' @ [en_dash] @ str ''7 sentences)'',
      str ''- topPraise_premium (6'' @ [en_dash] @ str ''10 items)'',
      str ''- topPainPoints_premium (6'' @ [en_dash] @ str ''10 items)'',
      str '''',
      str ''- strategicOpportunity (4'' @ [en_dash] @ str ''6 sentences)'',
      str ''- audienceDeepProfile (4'' @ [en_dash] @ str ''6 sentences)'',
      str ''- contentIdeas (3'' @ [en_dash] @ str ''6 short items)'',
      str ''- engagementPatterns (3'' @ [en_dash] @ str ''6 short items)'',
      str '''',
      str ''Guidelines:'',
      str ''- Focus on real audience behavior and intent.'',
      str ''- Be concise but deep.'',
      str ''- Prioritize clarity and usefulness over verbosity.'',
      str ''- Assume this is a paid, professional report.'',
      str '''',
      str ''Return a single, complete JSON object matching the schema exactly.'',
      str '''',
      str '''',
      str ''{'',
      str ''  "positivePercentage": number,'',
      str ''  "negativePercentage": number,'',
      str ''  "neutralPercentage": number,'',
      str '''',
      str ''  "sentimentSummary_premium": "string",'',
      str ''  "actionableInsight_premium": "string",'',
      str '''',
      str ''  "topPraise_premium": ["string"],'',
      str ''  "topPainPoints_premium": ["string"],'',
      str '''',
      str ''  "strategicOpportunity": "string",'',
      str ''  "audienceDeepProfile": "string",'',
      str ''  "contentIdeas": ["string"],'',
      str ''  "engagementPatterns": ["string"]'',
      str ''}'',
      str '''',
      str ''### COMMENTS:''] @ [10] @ JSON_stringify e aggregate @ [10]\<close>

section \<open>Calling the model\<close>

text \<open>
  The state threaded through the pipeline is the list of prompts sent to the model so
  far; a call appends its prompt, whatever its outcome.
\<close>

definition call_model ::
  "env \<Rightarrow> jsstring \<Rightarrow> jsstring list \<Rightarrow> (jsstring + jsstring) \<times> jsstring list" where
  "call_model e prompt sent = (generateContent e (length sent) prompt, sent @ [prompt])"

definition fallback :: partial where
  "fallback = \<lparr>pos = Some (Fin 0), neg = Some (Fin 0), neu = Some (Fin 0),
               praise = Some [], pain = Some [], themes = Some []\<rparr>"

definition runChunk ::
  "env \<Rightarrow> jsstring list \<Rightarrow> jsstring list \<Rightarrow> (jsstring + parsed) \<times> jsstring list" where
  "runChunk e chunk sent =
     (let prompt = buildChunkPrompt chunk;
          (result, sent') = call_model e prompt sent
      in case result of
           Inl err \<Rightarrow> (Inl err, sent')
         | Inr raw \<Rightarrow>
             (let clean = trim (replace_all id (str ''```'')
                            (replace_all canon (str ''```json'') raw))
              in case JSON_parse_partial e clean of
                   Inr p \<Rightarrow> (Inr p, sent')
                 | Inl err \<Rightarrow> (Inr (PObj fallback), sent')))"

definition runFinalPremium ::
  "env \<Rightarrow> aggregate \<Rightarrow> jsstring list \<Rightarrow> (jsstring + report) \<times> jsstring list" where
  "runFinalPremium e aggregate sent =
     (let prompt = buildPremiumPrompt e aggregate;
          (result, sent') = call_model e prompt sent
      in case result of
           Inl err \<Rightarrow> (Inl err, sent')
         | Inr raw \<Rightarrow>
             (let clean = trim (replace_all id (str ''```'')
                            (replace_all canon (str ''```json'') raw))
              in (JSON_parse_report e clean, sent')))"

section \<open>The route\<close>

definition slice :: "'a list \<Rightarrow> nat \<Rightarrow> nat \<Rightarrow> 'a list" where
  "slice xs start end = take (end - start) (drop start xs)"

function chunk_loop :: "'a list \<Rightarrow> nat \<Rightarrow> 'a list list \<Rightarrow> 'a list list" where
  "chunk_loop comments i chunks =
     (if i < length comments
      then chunk_loop comments (i + 100) (chunks @ [slice comments i (i + 100)])
      else chunks)"
  by pat_completeness auto
termination
  by (relation "measure (\<lambda>(comments, i, chunks). length comments - i)") auto

declare chunk_loop.simps [simp del]

text \<open>\<open>chunks.map(runChunk)\<close>: every chunk's call is started, in order.\<close>

fun map_runChunk ::
  "env \<Rightarrow> jsstring list list \<Rightarrow> jsstring list \<Rightarrow> (jsstring + parsed) list \<times> jsstring list" where
  "map_runChunk e [] sent = ([], sent)"
| "map_runChunk e (c # cs) sent =
     (let (r, sent1) = runChunk e c sent;
          (rs, sent2) = map_runChunk e cs sent1
      in (r # rs, sent2))"

text \<open>
  \<open>Promise.all\<close> fulfils with all the results, in order, or rejects with the rejection
  that happens first in time. A chunk's task rejects only when the answer to its call is a
  rejection, so the \<open>i\<close>-th task rejects at the time \<open>t i\<close> at which the answer to call
  number \<open>i\<close> arrives. \<open>first_rejection t i rs\<close> is the earliest rejection among the
  tasks \<open>rs\<close>, numbered from \<open>i\<close>, with its number.
\<close>

fun first_rejection :: "(nat \<Rightarrow> nat) \<Rightarrow> nat \<Rightarrow> ('e + 'a) list \<Rightarrow> (nat \<times> 'e) option" where
  "first_rejection t i [] = None"
| "first_rejection t i (Inr v # rs) = first_rejection t (Suc i) rs"
| "first_rejection t i (Inl err # rs) =
     (case first_rejection t (Suc i) rs of
        None \<Rightarrow> Some (i, err)
      | Some (j, err') \<Rightarrow> if t j < t i then Some (j, err') else Some (i, err))"

fun fulfilled :: "('e + 'a) list \<Rightarrow> 'a list" where
  "fulfilled [] = []"
| "fulfilled (Inl err # rs) = fulfilled rs"
| "fulfilled (Inr v # rs) = v # fulfilled rs"

definition Promise_all :: "(nat \<Rightarrow> nat) \<Rightarrow> ('e + 'a) list \<Rightarrow> 'e + 'a list" where
  "Promise_all t rs =
     (case first_rejection t 0 rs of
        Some (i, err) \<Rightarrow> Inl err
      | None \<Rightarrow> Inr (fulfilled rs))"

text \<open>
  The first \<open>reduce\<close> reads \<open>p.pos\<close> of every partial result in order. Reading a
  property of \<open>null\<close> throws a TypeError (the message is the one of V8); nothing that can
  be observed happens before it, so the model makes the reads first.
\<close>

definition null_read :: jsstring where
  "null_read =
     str ''Cannot read properties of null (reading '' @ [39] @ str ''pos'' @ [39] @ str '')''"

fun read_partials :: "parsed list \<Rightarrow> jsstring + partial list" where
  "read_partials [] = Inr []"
| "read_partials (PNull # ps) = Inl null_read"
| "read_partials (PObj p # ps) =
     (case read_partials ps of Inl err \<Rightarrow> Inl err | Inr qs \<Rightarrow> Inr (p # qs))"

definition reduce :: "('b \<Rightarrow> 'a \<Rightarrow> 'b) \<Rightarrow> 'b \<Rightarrow> 'a list \<Rightarrow> 'b" where
  "reduce f z xs = foldl f z xs"

definition flatMap :: "('a \<Rightarrow> 'b list) \<Rightarrow> 'a list \<Rightarrow> 'b list" where
  "flatMap f xs = concat (map f xs)"

text \<open>\<open>v || []\<close> on a property that holds an array or is missing.\<close>

fun or_empty :: "'a list option \<Rightarrow> 'a list" where
  "or_empty None = []"
| "or_empty (Some xs) = xs"

definition aggregate_of :: "partial list \<Rightarrow> aggregate" where
  "aggregate_of partials =
     \<lparr>posAvg = js_div_length (reduce (\<lambda>s p. js_plus s (pos p)) (Fin 0) partials) (length partials),
      negAvg = js_div_length (reduce (\<lambda>s p. js_plus s (neg p)) (Fin 0) partials) (length partials),
      neuAvg = js_div_length (reduce (\<lambda>s p. js_plus s (neu p)) (Fin 0) partials) (length partials),
      praise_agg = flatMap (\<lambda>p. or_empty (praise p)) partials,
      pain_agg = flatMap (\<lambda>p. or_empty (pain p)) partials,
      themes_agg = flatMap (\<lambda>p. or_empty (themes p)) partials\<rparr>"

definition insert_numbers :: "aggregate \<Rightarrow> report \<Rightarrow> report" where
  "insert_numbers a final =
     set_prop (str ''neutralPercentage'') (JNum (Math_round (neuAvg a)))
       (set_prop (str ''negativePercentage'') (JNum (Math_round (negAvg a)))
         (set_prop (str ''positivePercentage'') (JNum (Math_round (posAvg a))) final))"

text \<open>
  The request body is a JSON object whose \<open>comments\<close> property is an array of strings
  or is absent (\<open>None\<close>); the destructuring default \<open>comments = []\<close> applies to the
  absent property. The response: a status (200 when the source sets none) and the JSON
  body, \<open>{success:false, error}\<close> or \<open>{success:true, data}\<close>.
\<close>

record request =
  comments :: "jsstring list option"

datatype json_body = Failure jsstring | Success report

record response =
  status :: nat
  body :: json_body

definition analyze :: "env \<Rightarrow> request \<Rightarrow> response \<times> jsstring list" where
  "analyze e req =
     (let cs = (case comments req of None \<Rightarrow> [] | Some xs \<Rightarrow> xs)
      in if length cs = 0
         then (\<lparr>status = 400, body = Failure (str ''No comments'')\<rparr>, [])
         else
           (let chunks = chunk_loop cs 0 [];
                (results, sent1) = map_runChunk e chunks []
            in case Promise_all (answered_at e) results of
                 Inl err \<Rightarrow> (\<lparr>status = 500, body = Failure err\<rparr>, sent1)
               | Inr partials \<Rightarrow>
                   (case read_partials partials of
                      Inl err \<Rightarrow> (\<lparr>status = 500, body = Failure err\<rparr>, sent1)
                    | Inr ps \<Rightarrow>
                        (let aggregate = aggregate_of ps;
                             (final, sent2) = runFinalPremium e aggregate sent1
                         in case final of
                              Inl err \<Rightarrow> (\<lparr>status = 500, body = Failure err\<rparr>, sent2)
                            | Inr fin \<Rightarrow>
                                (\<lparr>status = 200,
                                  body = Success (insert_numbers aggregate fin)\<rparr>,
                                 sent2)))))"

section \<open>Notions used to state the properties\<close>

text \<open>
  The fence stripping that both stages apply to a raw response before parsing it:
  \<open>raw.replace(/```json/gi,"").replace(/```/g,"").trim()\<close>.
\<close>

definition fence_stripped :: "jsstring \<Rightarrow> jsstring" where
  "fence_stripped raw =
     trim (replace_all id (str ''```'') (replace_all canon (str ''```json'') raw))"

text \<open>The exact unweighted arithmetic mean: the sum divided by the count.\<close>

definition mean :: "rat list \<Rightarrow> rat" where
  "mean xs = sum_list xs / of_nat (length xs)"

text \<open>
  The unweighted mean in binary64: the values are added from left to right, starting from
  0, every addition rounded; the sum is divided by the count and the quotient rounded.
\<close>

definition sum64 :: "rat list \<Rightarrow> jsnum" where
  "sum64 xs = foldl (\<lambda>s x. js_add s (Fin x)) (Fin 0) xs"

definition mean64 :: "rat list \<Rightarrow> jsnum" where
  "mean64 xs = js_div_length (sum64 xs) (length xs)"

text \<open>
  No operation of the binary64 mean rounds: the sum of the first \<open>k\<close> values, for every
  \<open>k\<close>, and the exact mean are binary64 values.
\<close>

definition exact_mean :: "rat list \<Rightarrow> bool" where
  "exact_mean xs =
     (list_all (\<lambda>k. b64 (sum_list (take k xs)) = Fin (sum_list (take k xs)))
        [0..<Suc (length xs)]
      \<and> b64 (mean xs) = Fin (mean xs))"

text \<open>
  What a chunk's task gives when its call to the model is call number \<open>n\<close>; it is the
  first component of \<open>runChunk\<close> (lemma \<open>runChunk_eq\<close>).
\<close>

definition chunk_result :: "env \<Rightarrow> nat \<Rightarrow> jsstring list \<Rightarrow> jsstring + parsed" where
  "chunk_result e n chunk =
     (case generateContent e n (buildChunkPrompt chunk) of
        Inl err \<Rightarrow> Inl err
      | Inr raw \<Rightarrow>
          (case JSON_parse_partial e (fence_stripped raw) of
             Inr p \<Rightarrow> Inr p
           | Inl err \<Rightarrow> Inr (PObj fallback)))"

text \<open>The number of backticks (code unit 96) at the head of a string.\<close>

definition ticks :: "jsstring \<Rightarrow> nat" where
  "ticks s = length (takeWhile (\<lambda>c. c = 96) s)"

text \<open>The three property names that the route overwrites.\<close>

definition percentage_keys :: "jsstring set" where
  "percentage_keys =
     {str ''positivePercentage'', str ''negativePercentage'', str ''neutralPercentage''}"

subsection \<open>A scripted environment for concrete runs\<close>

text \<open>
  A model that answers call number \<open>n\<close> with the \<open>n\<close>-th entry of a script, and a
  parser that knows a few texts and throws on every other one.
\<close>

definition scripted :: "(jsstring + jsstring) list \<Rightarrow> nat \<Rightarrow> jsstring \<Rightarrow> jsstring + jsstring" where
  "scripted answers n prompt =
     (if n < length answers then answers ! n else Inl (str ''quota exceeded''))"

definition toy_parse_partial :: "jsstring \<Rightarrow> jsstring + parsed" where
  \<open>toy_parse_partial s =
     (if s = str ''{"pos":60,"neg":30,"neu":10}''
      then Inr (PObj \<lparr>pos = Some (Fin 60), neg = Some (Fin 30), neu = Some (Fin 10),
                praise = None, pain = None, themes = None\<rparr>)
      else if s = str ''{"pos":40,"neg":35,"neu":25,"praise":["fun"]}''
      then Inr (PObj \<lparr>pos = Some (Fin 40), neg = Some (Fin 35), neu = Some (Fin 25),
                praise = Some [str ''fun''], pain = None, themes = None\<rparr>)
      else if s = str ''{"neg":20,"neu":30}''
      then Inr (PObj \<lparr>pos = None, neg = Some (Fin 20), neu = Some (Fin 30),
                praise = None, pain = None, themes = None\<rparr>)
      else if s = str ''{"pos":0.49999999999999994,"neg":0,"neu":0}''
      then Inr (PObj \<lparr>pos = Some (Fin (1 / 2 - 1 / 2 ^ 54)), neg = Some (Fin 0),
                neu = Some (Fin 0), praise = None, pain = None, themes = None\<rparr>)
      else if s = str ''{"pos":0.5,"neg":0,"neu":0}''
      then Inr (PObj \<lparr>pos = Some (Fin (1 / 2)), neg = Some (Fin 0),
                neu = Some (Fin 0), praise = None, pain = None, themes = None\<rparr>)
      else if s = str ''null''
      then Inr PNull
      else Inl (str ''Unexpected token in JSON''))\<close>

definition toy_parse_report :: "jsstring \<Rightarrow> jsstring + report" where
  \<open>toy_parse_report s =
     (if s = str ''{"positivePercentage":99,"contentIdeas":["q&a"]}''
      then Inr [(str ''positivePercentage'', JNum (Fin 99)),
                (str ''contentIdeas'', JArr [JStr (str ''q&a'')])]
      else Inl (str ''Unexpected token in JSON''))\<close>

definition toy_env :: "(jsstring + jsstring) list \<Rightarrow> env" where
  "toy_env answers =
     \<lparr>generateContent = scripted answers,
      answered_at = (\<lambda>n. n),
      JSON_parse_partial = toy_parse_partial,
      JSON_parse_report = toy_parse_report,
      JSON_stringify = (\<lambda>a. str ''{}'')\<rparr>"

text \<open>
  Responses of the model used in concrete runs, and a request of 150 comments, which the
  route splits into a chunk of 100 and a chunk of 50.
\<close>

definition answer_60 :: jsstring where
  \<open>answer_60 = str ''```JSON {"pos":60,"neg":30,"neu":10} ``` ''\<close>

definition answer_40 :: jsstring where
  \<open>answer_40 = str ''{"pos":40,"neg":35,"neu":25,"praise":["fun"]}''\<close>

definition answer_no_pos :: jsstring where
  \<open>answer_no_pos = str ''{"neg":20,"neu":30}''\<close>

definition answer_garbage :: jsstring where
  \<open>answer_garbage = str ''NOT JSON''\<close>

definition answer_below_half :: jsstring where
  \<open>answer_below_half = str ''{"pos":0.49999999999999994,"neg":0,"neu":0}''\<close>

definition answer_half :: jsstring where
  \<open>answer_half = str ''{"pos":0.5,"neg":0,"neu":0}''\<close>

definition answer_null :: jsstring where
  \<open>answer_null = str ''null''\<close>

definition answer_report :: jsstring where
  \<open>answer_report = str ''```json{"positivePercentage":99,"contentIdeas":["q&a"]}```''\<close>

definition demo_request :: request where
  "demo_request = \<lparr>comments = Some (replicate 150 (str ''nice video''))\<rparr>"

section \<open>The chunker\<close>

lemma slice_step: "slice xs i (i + 100) = take 100 (drop i xs)"
  by (simp add: slice_def)

lemma chunk_loop_concat: "concat (chunk_loop cs i acc) = concat acc @ drop i cs"
proof (induction cs i acc rule: chunk_loop.induct)
  case (1 cs i acc)
  show ?case
  proof (cases "i < length cs")
    case True
    have "take 100 (drop i cs) @ drop (i + 100) cs = drop i cs"
      by (metis add.commute append_take_drop_id drop_drop)
    with True 1 show ?thesis by (simp add: slice_step chunk_loop.simps [of cs i acc])
  next
    case False
    then show ?thesis by (simp add: chunk_loop.simps [of cs i acc])
  qed
qed

lemma ceil_step:
  assumes "i < (n::nat)"
  shows "(n - i + 99) div 100 = Suc ((n - (i + 100) + 99) div 100)"
proof (cases "100 \<le> n - i")
  case True
  then have "n - i + 99 = (n - (i + 100) + 99) + 100" by simp
  then show ?thesis by (simp only: div_add_self2)
next
  case False
  with assms have "100 \<le> n - i + 99" "n - i + 99 < 200" by simp_all
  then have "(n - i + 99) div 100 = 1"
    by (simp add: div_nat_eqI)
  moreover from False have "n - (i + 100) = 0" by simp
  ultimately show ?thesis by simp
qed

lemma chunk_loop_length:
  "length (chunk_loop cs i acc) = length acc + (length cs - i + 99) div 100"
proof (induction cs i acc rule: chunk_loop.induct)
  case (1 cs i acc)
  show ?case
  proof (cases "i < length cs")
    case True
    with 1 ceil_step [OF True] show ?thesis by (simp add: chunk_loop.simps [of cs i acc])
  next
    case False
    then show ?thesis by (simp add: chunk_loop.simps [of cs i acc])
  qed
qed

lemma chunk_loop_sizes:
  "\<forall>c \<in> set acc. 1 \<le> length c \<and> length c \<le> 100 \<Longrightarrow>
   \<forall>c \<in> set (chunk_loop cs i acc). 1 \<le> length c \<and> length c \<le> 100"
proof (induction cs i acc rule: chunk_loop.induct)
  case (1 cs i acc)
  show ?case
  proof (cases "i < length cs")
    case True
    then have "1 \<le> length (slice cs i (i + 100)) \<and> length (slice cs i (i + 100)) \<le> 100"
      by (simp add: slice_step)
    with True 1 show ?thesis by (simp add: chunk_loop.simps [of cs i acc])
  next
    case False
    with 1 show ?thesis by (simp add: chunk_loop.simps [of cs i acc])
  qed
qed

lemma ceiling_div_100: "\<lceil>of_nat n / (100::rat)\<rceil> = int ((n + 99) div 100)"
proof -
  have "\<lceil>of_nat n / (100::rat)\<rceil> = \<lceil>(of_int (int n) :: rat) / of_int 100\<rceil>" by simp
  also have "\<dots> = - ((- int n) div 100)" by (simp only: ceiling_divide_eq_div)
  also have "\<dots> = int ((n + 99) div 100)" by (simp add: zdiv_int)
  finally show ?thesis .
qed

text \<open>
  C1. The loop of the route splits a comment sequence of length \<open>L\<close> into exactly
  \<open>ceil(L / 100)\<close> chunks, every chunk holds at least 1 and at most 100 comments, and
  the chunks concatenated in order are the input sequence. (This also holds for the empty
  sequence, which gives no chunk.)
\<close>

theorem chunker_partition:
  "int (length (chunk_loop cs 0 [])) = \<lceil>of_nat (length cs) / (100::rat)\<rceil>
   \<and> (\<forall>c \<in> set (chunk_loop cs 0 []). 1 \<le> length c \<and> length c \<le> 100)
   \<and> concat (chunk_loop cs 0 []) = cs"
  using chunk_loop_length [of cs 0 "[]"] chunk_loop_sizes [of "[]" cs 0]
    chunk_loop_concat [of cs 0 "[]"]
  by (simp add: ceiling_div_100)

theorem chunker_partition_witness:
  "length (chunk_loop (replicate 150 (str ''nice video'')) 0 []) = 2
   \<and> list_all (\<lambda>c. 1 \<le> length c \<and> length c \<le> 100)
         (chunk_loop (replicate 150 (str ''nice video'')) 0 [])
   \<and> concat (chunk_loop (replicate 150 (str ''nice video'')) 0 [])
       = replicate 150 (str ''nice video'')"
proof -
  have "\<lceil>of_nat 150 / (100::rat)\<rceil> = 2" unfolding ceiling_div_100 by simp
  then show ?thesis
    using chunker_partition [of "replicate 150 (str ''nice video'')"]
    by (simp add: list_all_iff)
qed

section \<open>The route: auxiliary facts\<close>

lemma runChunk_eq:
  "runChunk e chunk sent = (chunk_result e (length sent) chunk, sent @ [buildChunkPrompt chunk])"
  by (simp add: runChunk_def chunk_result_def call_model_def fence_stripped_def Let_def
      split: sum.splits)

lemma map_runChunk_eq:
  "map_runChunk e chunks sent =
     (map (\<lambda>(i, c). chunk_result e i c) (enumerate (length sent) chunks),
      sent @ map buildChunkPrompt chunks)"
  by (induction chunks arbitrary: sent) (simp_all add: runChunk_eq)

lemma first_rejection_None:
  "first_rejection t i rs = None \<longleftrightarrow> (\<forall>r \<in> set rs. \<exists>v. r = Inr v)"
proof (induction t i rs rule: first_rejection.induct)
  case (1 t i)
  then show ?case by simp
next
  case (2 t i v rs)
  then show ?case by simp
next
  case (3 t i err rs)
  then show ?case by (auto split: option.splits)
qed

lemma first_rejection_Some:
  "first_rejection t i rs = Some (j, err) \<Longrightarrow> Inl err \<in> set rs"
proof (induction t i rs arbitrary: j err rule: first_rejection.induct)
  case (1 t i)
  then show ?case by simp
next
  case (2 t i v rs)
  then show ?case by simp
next
  case (3 t i err' rs)
  then show ?case by (auto split: option.splits if_splits)
qed

lemma fulfilled_all:
  "\<forall>r \<in> set rs. \<exists>v. r = Inr v \<Longrightarrow> map Inr (fulfilled rs) = rs"
  by (induction rs rule: fulfilled.induct) auto

lemma Promise_all_Inr_iff:
  "Promise_all t rs = Inr vs \<longleftrightarrow> rs = map Inr vs"
proof
  assume a: "Promise_all t rs = Inr vs"
  then have n: "first_rejection t 0 rs = None" and vs: "vs = fulfilled rs"
    by (auto simp: Promise_all_def split: option.splits)
  from n have "\<forall>r \<in> set rs. \<exists>v. r = Inr v" by (simp add: first_rejection_None)
  from fulfilled_all [OF this] vs show "rs = map Inr vs" by simp
next
  assume r: "rs = map Inr vs"
  then have "\<forall>r \<in> set rs. \<exists>v. r = Inr v" by auto
  then have n: "first_rejection t 0 rs = None" by (simp add: first_rejection_None)
  have "fulfilled (map Inr vs) = vs" by (induction vs) simp_all
  with n r show "Promise_all t rs = Inr vs" by (simp add: Promise_all_def)
qed

lemma Promise_all_length: "Promise_all t rs = Inr vs \<Longrightarrow> length vs = length rs"
  by (simp add: Promise_all_Inr_iff)

lemma Promise_all_nth:
  "Promise_all t rs = Inr vs \<Longrightarrow> i < length rs \<Longrightarrow> rs ! i = Inr (vs ! i)"
  by (simp add: Promise_all_Inr_iff)

lemma Promise_all_Inr:
  "\<forall>r \<in> set rs. \<exists>v. r = Inr v \<Longrightarrow> \<exists>vs. Promise_all t rs = Inr vs"
  by (simp add: Promise_all_def first_rejection_None [THEN iffD2])

lemma Promise_all_Inl:
  "Promise_all t rs = Inl err \<Longrightarrow> Inl err \<in> set rs"
  by (auto simp: Promise_all_def split: option.splits dest: first_rejection_Some)

lemma read_partials_objects: "read_partials (map PObj qs) = Inr qs"
  by (induction qs) simp_all

lemma read_partials_Inr: "read_partials ps = Inr qs \<Longrightarrow> ps = map PObj qs"
proof (induction ps arbitrary: qs rule: read_partials.induct)
  case 1
  then show ?case by simp
next
  case (2 ps)
  then show ?case by simp
next
  case (3 p ps)
  from "3.prems" obtain qs' where "read_partials ps = Inr qs'" "qs = p # qs'"
    by (auto split: sum.splits)
  with "3.IH" show ?case by simp
qed

lemma read_partials_Inr_iff: "read_partials ps = Inr qs \<longleftrightarrow> ps = map PObj qs"
  using read_partials_objects read_partials_Inr by blast

lemma read_partials_null:
  "PNull \<in> set ps \<Longrightarrow> read_partials ps = Inl null_read"
  by (induction ps rule: read_partials.induct) (auto split: sum.splits)

lemma analyze_no_comments:
  "comments req = None \<or> comments req = Some [] \<Longrightarrow>
   analyze e req = (\<lparr>status = 400, body = Failure (str ''No comments'')\<rparr>, [])"
  by (auto simp: analyze_def)

lemma analyze_run:
  assumes "comments req = Some cs" "cs \<noteq> []"
  shows "analyze e req =
     (case Promise_all (answered_at e) (fst (map_runChunk e (chunk_loop cs 0 []) [])) of
        Inl err \<Rightarrow> (\<lparr>status = 500, body = Failure err\<rparr>, snd (map_runChunk e (chunk_loop cs 0 []) []))
      | Inr partials \<Rightarrow>
         (case read_partials partials of
            Inl err \<Rightarrow> (\<lparr>status = 500, body = Failure err\<rparr>, snd (map_runChunk e (chunk_loop cs 0 []) []))
          | Inr ps \<Rightarrow>
          (case fst (runFinalPremium e (aggregate_of ps) (snd (map_runChunk e (chunk_loop cs 0 []) []))) of
             Inl err \<Rightarrow> (\<lparr>status = 500, body = Failure err\<rparr>,
                snd (runFinalPremium e (aggregate_of ps) (snd (map_runChunk e (chunk_loop cs 0 []) []))))
           | Inr fin \<Rightarrow> (\<lparr>status = 200, body = Success (insert_numbers (aggregate_of ps) fin)\<rparr>,
                snd (runFinalPremium e (aggregate_of ps) (snd (map_runChunk e (chunk_loop cs 0 []) [])))))))"
  using assms
  by (simp add: analyze_def Let_def split: prod.splits sum.splits)

lemma chunk_loop_nonempty: "cs \<noteq> [] \<Longrightarrow> 1 \<le> length (chunk_loop cs 0 [])"
  using chunk_loop_length [of cs 0 "[]"] by (cases cs) simp_all

lemma analyze_success:
  assumes "comments req = Some cs" "cs \<noteq> []"
    and "Promise_all (answered_at e) (fst (map_runChunk e (chunk_loop cs 0 []) [])) = Inr (map PObj ps)"
    and "fst (runFinalPremium e (aggregate_of ps) (snd (map_runChunk e (chunk_loop cs 0 []) []))) = Inr fin"
  shows "fst (analyze e req) = \<lparr>status = 200, body = Success (insert_numbers (aggregate_of ps) fin)\<rparr>"
proof -
  have "read_partials (map PObj ps) = Inr ps" by (simp add: read_partials_Inr_iff)
  with assms(3,4) show ?thesis
    by (simp add: analyze_run [OF assms(1,2)] del: map_runChunk.simps)
qed

lemma analyze_failure:
  assumes "comments req = Some cs" "cs \<noteq> []"
    and "Promise_all (answered_at e) (fst (map_runChunk e (chunk_loop cs 0 []) [])) = Inr (map PObj ps)"
    and "fst (runFinalPremium e (aggregate_of ps) (snd (map_runChunk e (chunk_loop cs 0 []) []))) = Inl err"
  shows "fst (analyze e req) = \<lparr>status = 500, body = Failure err\<rparr>"
proof -
  have "read_partials (map PObj ps) = Inr ps" by (simp add: read_partials_Inr_iff)
  with assms(3,4) show ?thesis
    by (simp add: analyze_run [OF assms(1,2)] del: map_runChunk.simps)
qed

lemma analyze_null:
  assumes "comments req = Some cs" "cs \<noteq> []"
    and "Promise_all (answered_at e) (fst (map_runChunk e (chunk_loop cs 0 []) [])) = Inr partials"
    and "PNull \<in> set partials"
  shows "fst (analyze e req) = \<lparr>status = 500, body = Failure null_read\<rparr>"
  using assms(3) read_partials_null [OF assms(4)]
  by (simp add: analyze_run [OF assms(1,2)] del: map_runChunk.simps)

section \<open>The aggregator\<close>

lemma reduce_values:
  "map f ps = map (\<lambda>x. Some (Fin x)) xs \<Longrightarrow>
   foldl (\<lambda>s p. js_plus s (f p)) s0 ps = foldl (\<lambda>s x. js_add s (Fin x)) s0 xs"
proof (induction ps arbitrary: s0 xs)
  case Nil
  then show ?case by simp
next
  case (Cons p ps)
  then obtain x xs' where xs: "xs = x # xs'" "f p = Some (Fin x)"
    "map f ps = map (\<lambda>x. Some (Fin x)) xs'"
    by (cases xs) auto
  with Cons.IH [of xs' "js_add s0 (Fin x)"] show ?case
    by (simp add: js_plus_def)
qed

lemma avg_mean64:
  assumes "map f ps = map (\<lambda>x. Some (Fin x)) xs"
  shows "js_div_length (reduce (\<lambda>s p. js_plus s (f p)) (Fin 0) ps) (length ps) = mean64 xs"
proof -
  have "length xs = length ps" using assms by (metis length_map)
  with reduce_values [OF assms, of "Fin 0"] show ?thesis
    by (simp add: reduce_def mean64_def sum64_def)
qed

lemma sum_exact:
  "\<forall>k \<le> length xs. b64 (a + sum_list (take k xs)) = Fin (a + sum_list (take k xs)) \<Longrightarrow>
   foldl (\<lambda>s x. js_add s (Fin x)) (Fin a) xs = Fin (a + sum_list xs)"
proof (induction xs arbitrary: a)
  case Nil
  then show ?case by simp
next
  case (Cons x xs)
  from Cons.prems have "b64 (a + sum_list (take 1 (x # xs))) = Fin (a + sum_list (take 1 (x # xs)))"
    by (metis One_nat_def Suc_le_mono length_Cons zero_le)
  then have step: "js_add (Fin a) (Fin x) = Fin (a + x)" by simp
  have "\<forall>k \<le> length xs. b64 ((a + x) + sum_list (take k xs)) = Fin ((a + x) + sum_list (take k xs))"
  proof (intro allI impI)
    fix k assume "k \<le> length xs"
    then have "Suc k \<le> length (x # xs)" by simp
    with Cons.prems have
      "b64 (a + sum_list (take (Suc k) (x # xs))) = Fin (a + sum_list (take (Suc k) (x # xs)))"
      by blast
    then show "b64 ((a + x) + sum_list (take k xs)) = Fin ((a + x) + sum_list (take k xs))"
      by (simp add: add.assoc)
  qed
  from Cons.IH [OF this] step show ?case by (simp add: add.assoc)
qed

lemma mean64_exact:
  assumes "xs \<noteq> []" and "exact_mean xs"
  shows "mean64 xs = Fin (mean xs)"
proof -
  from assms(2) have
    a: "\<forall>k \<le> length xs. b64 (0 + sum_list (take k xs)) = Fin (0 + sum_list (take k xs))"
    and m: "b64 (mean xs) = Fin (mean xs)"
    by (auto simp: exact_mean_def list_all_iff)
  from sum_exact [OF a] have "sum64 xs = Fin (sum_list xs)" by (simp add: sum64_def)
  with assms(1) m show ?thesis by (simp add: mean64_def mean_def)
qed

lemma aggregate_avgs:
  shows "map pos ps = map (\<lambda>x. Some (Fin x)) xs \<Longrightarrow> posAvg (aggregate_of ps) = mean64 xs"
    and "map neg ps = map (\<lambda>x. Some (Fin x)) ys \<Longrightarrow> negAvg (aggregate_of ps) = mean64 ys"
    and "map neu ps = map (\<lambda>x. Some (Fin x)) zs \<Longrightarrow> neuAvg (aggregate_of ps) = mean64 zs"
  using avg_mean64 by (simp_all add: aggregate_of_def)

lemma values_nonempty: "ps \<noteq> [] \<Longrightarrow> map f ps = map g xs \<Longrightarrow> xs \<noteq> []"
  by auto

text \<open>
  C3. For a non-empty list of \<open>K\<close> partial results whose \<open>pos\<close>, \<open>neg\<close> and \<open>neu\<close>
  are finite numbers, each of the aggregate's three averages is the unweighted mean of the field
  as binary64 arithmetic computes it: the values are added from left to right, every sum
  rounded, and the last sum is divided by \<open>K\<close>, the quotient rounded. When no operation
  rounds, the average is the exact arithmetic mean, the sum divided by \<open>K\<close>. The aggregate
  is computed from the partial results alone; the sizes of the chunks they came from do not
  enter it.
\<close>

theorem aggregate_binary64_mean:
  assumes "ps \<noteq> []"
    and "map pos ps = map (\<lambda>x. Some (Fin x)) xs"
    and "map neg ps = map (\<lambda>x. Some (Fin x)) ys"
    and "map neu ps = map (\<lambda>x. Some (Fin x)) zs"
  shows "posAvg (aggregate_of ps) = mean64 xs
       \<and> negAvg (aggregate_of ps) = mean64 ys
       \<and> neuAvg (aggregate_of ps) = mean64 zs
       \<and> (exact_mean xs \<longrightarrow> posAvg (aggregate_of ps) = Fin (mean xs))
       \<and> (exact_mean ys \<longrightarrow> negAvg (aggregate_of ps) = Fin (mean ys))
       \<and> (exact_mean zs \<longrightarrow> neuAvg (aggregate_of ps) = Fin (mean zs))"
  using aggregate_avgs(1) [OF assms(2)] aggregate_avgs(2) [OF assms(3)]
    aggregate_avgs(3) [OF assms(4)]
    mean64_exact [OF values_nonempty [OF assms(1,2)]]
    mean64_exact [OF values_nonempty [OF assms(1,3)]]
    mean64_exact [OF values_nonempty [OF assms(1,4)]]
  by simp

lemma exact_60_40: "exact_mean [60, 40]" "exact_mean [30, 35]" "exact_mean [10, 25]"
  by code_simp+

theorem aggregate_binary64_mean_witness:
  "posAvg (aggregate_of
     [\<lparr>pos = Some (Fin 60), neg = Some (Fin 30), neu = Some (Fin 10),
        praise = None, pain = None, themes = None\<rparr>,
      \<lparr>pos = Some (Fin 40), neg = Some (Fin 35), neu = Some (Fin 25),
        praise = Some [str ''fun''], pain = None, themes = None\<rparr>]) = Fin 50
   \<and> negAvg (aggregate_of
     [\<lparr>pos = Some (Fin 60), neg = Some (Fin 30), neu = Some (Fin 10),
        praise = None, pain = None, themes = None\<rparr>,
      \<lparr>pos = Some (Fin 40), neg = Some (Fin 35), neu = Some (Fin 25),
        praise = Some [str ''fun''], pain = None, themes = None\<rparr>]) = Fin (65 / 2)"
proof -
  let ?ps = "[\<lparr>pos = Some (Fin 60), neg = Some (Fin 30), neu = Some (Fin 10),
        praise = None, pain = None, themes = None\<rparr>,
      \<lparr>pos = Some (Fin 40), neg = Some (Fin 35), neu = Some (Fin 25),
        praise = Some [str ''fun''], pain = None, themes = None\<rparr>]"
  have h: "?ps \<noteq> []" "map pos ?ps = map (\<lambda>x. Some (Fin x)) [60, 40]"
    "map neg ?ps = map (\<lambda>x. Some (Fin x)) [30, 35]"
    "map neu ?ps = map (\<lambda>x. Some (Fin x)) [10, 25]"
    by simp_all
  have "exact_mean [60, 40] \<longrightarrow> posAvg (aggregate_of ?ps) = Fin (mean [60, 40])"
    "exact_mean [30, 35] \<longrightarrow> negAvg (aggregate_of ?ps) = Fin (mean [30, 35])"
    using aggregate_binary64_mean [OF h] by blast+
  with exact_60_40 have "posAvg (aggregate_of ?ps) = Fin (mean [60, 40])"
    "negAvg (aggregate_of ?ps) = Fin (mean [30, 35])" by blast+
  moreover have "mean [60, 40] = 50" "mean [30, 35] = 65 / 2" by (simp_all add: mean_def)
  ultimately show ?thesis by (simp only:)
qed

text \<open>
  The three decimals \<open>0.1\<close>, \<open>0.2\<close>, \<open>0.3\<close> as \<open>JSON.parse\<close> reads them: the nearest
  binary64 values.
\<close>

lemma decimals_read:
  "b64 (1 / 10) = Fin (3602879701896397 / 2 ^ 55)"
  "b64 (2 / 10) = Fin (3602879701896397 / 2 ^ 54)"
  "b64 (3 / 10) = Fin (5404319552844595 / 2 ^ 54)"
  by code_simp+

lemma decimals_mean:
  "mean [3602879701896397 / 2 ^ 55, 3602879701896397 / 2 ^ 54, 5404319552844595 / 2 ^ 54]
     = 21617278211378381 / (3 * 2 ^ 55)"
  by (simp add: mean_def)

lemma decimals_mean_nearest:
  "b64 (21617278211378381 / (3 * 2 ^ 55)) = Fin (3602879701896397 / 2 ^ 54)"
  by code_simp

text \<open>
  With \<open>pos\<close> 0.1, 0.2 and 0.3 in three partial results, \<open>posAvg\<close> is
  0.20000000000000004 (\<open>7205759403792795 / 2 ^ 55\<close>). The arithmetic mean of the three
  values is another number, and the binary64 value nearest to it is 0.2
  (\<open>7205759403792794 / 2 ^ 55\<close>): the average is neither the mean nor the mean rounded
  once.
\<close>

theorem aggregate_mean_counterexample:
  "posAvg (aggregate_of
     [\<lparr>pos = Some (Fin (3602879701896397 / 2 ^ 55)), neg = Some (Fin 0), neu = Some (Fin 0),
        praise = None, pain = None, themes = None\<rparr>,
      \<lparr>pos = Some (Fin (3602879701896397 / 2 ^ 54)), neg = Some (Fin 0), neu = Some (Fin 0),
        praise = None, pain = None, themes = None\<rparr>,
      \<lparr>pos = Some (Fin (5404319552844595 / 2 ^ 54)), neg = Some (Fin 0), neu = Some (Fin 0),
        praise = None, pain = None, themes = None\<rparr>]) = Fin (7205759403792795 / 2 ^ 55)
   \<and> mean [3602879701896397 / 2 ^ 55, 3602879701896397 / 2 ^ 54, 5404319552844595 / 2 ^ 54]
       = 21617278211378381 / (3 * 2 ^ 55)
   \<and> Fin (7205759403792795 / 2 ^ 55)
       \<noteq> Fin (mean [3602879701896397 / 2 ^ 55, 3602879701896397 / 2 ^ 54,
                      5404319552844595 / 2 ^ 54])
   \<and> Fin (7205759403792795 / 2 ^ 55)
       \<noteq> b64 (mean [3602879701896397 / 2 ^ 55, 3602879701896397 / 2 ^ 54,
                      5404319552844595 / 2 ^ 54])"
proof -
  have "posAvg (aggregate_of
     [\<lparr>pos = Some (Fin (3602879701896397 / 2 ^ 55)), neg = Some (Fin 0), neu = Some (Fin 0),
        praise = None, pain = None, themes = None\<rparr>,
      \<lparr>pos = Some (Fin (3602879701896397 / 2 ^ 54)), neg = Some (Fin 0), neu = Some (Fin 0),
        praise = None, pain = None, themes = None\<rparr>,
      \<lparr>pos = Some (Fin (5404319552844595 / 2 ^ 54)), neg = Some (Fin 0), neu = Some (Fin 0),
        praise = None, pain = None, themes = None\<rparr>]) = Fin (7205759403792795 / 2 ^ 55)"
    by code_simp
  moreover have "Fin (7205759403792795 / 2 ^ 55) \<noteq> Fin (21617278211378381 / (3 * 2 ^ 55))"
    by simp
  moreover have "Fin (7205759403792795 / 2 ^ 55) \<noteq> Fin (3602879701896397 / 2 ^ 54)"
    by simp
  ultimately show ?thesis
    by (simp only: decimals_mean decimals_mean_nearest simp_thms)
qed

subsection \<open>Overflow\<close>

text \<open>
  A sum can also leave the finite range: two values of \<open>2 ^ 1023\<close> add up to
  \<open>Infinity\<close>, although their mean is the binary64 value \<open>2 ^ 1023\<close>.
\<close>

lemma pow2_nat: "pow2 (int n) = 2 ^ n"
proof (induction n)
  case 0
  show ?case by (simp add: pow2.simps [of 0])
next
  case (Suc n)
  have "pow2 (int (Suc n)) = 2 * pow2 (int (Suc n) - 1)"
    by (subst pow2.simps) simp
  with Suc show ?case by simp
qed

lemma log2_int_pow: "log2_int (2 ^ n) = int n"
proof (induction n)
  case 0
  show ?case by (simp add: log2_int.simps [of 1])
next
  case (Suc n)
  have "(2::int) ^ Suc n div 2 = 2 ^ n" by simp
  moreover have "\<not> (2::int) ^ Suc n < 2"
    by (simp add: not_less)
  ultimately have "log2_int (2 ^ Suc n) = 1 + log2_int (2 ^ n)"
    by (subst log2_int.simps) (simp only: if_False)
  with Suc show ?case by simp
qed

lemma ilog2_pow: "ilog2 (2 ^ n) = int n"
proof -
  have "quotient_of ((2::rat) ^ n) = (2 ^ n, 1)"
    using quotient_of_rat_of_int [of "2 ^ n"] by simp
  moreover have "log2_int 1 = 0" by (simp add: log2_int.simps [of 1])
  ultimately show ?thesis
    by (simp add: ilog2_def log2_int_pow pow2_nat)
qed

lemma round_even_int: "round_even (of_int k) = k"
  by (simp add: round_even_def)

lemma b64_pow:
  assumes "52 \<le> n"
  shows "b64 (2 ^ n) = (if n < 1024 then Fin (2 ^ n) else PInf)"
proof -
  have e: "max (ilog2 (2 ^ n)) (- 1022) = int n" by (simp add: ilog2_pow)
  have "int n - 52 = int (n - 52)" using assms by simp
  then have q: "pow2 (int n - 52) = 2 ^ (n - 52)" by (simp only: pow2_nat)
  have d: "(2::rat) ^ n / 2 ^ (n - 52) = of_int (2 ^ 52)"
    using assms by (simp add: power_diff)
  have r: "of_int (round_even ((2::rat) ^ n / 2 ^ (n - 52))) * 2 ^ (n - 52) = (2::rat) ^ n"
  proof -
    have "of_int (round_even ((2::rat) ^ n / 2 ^ (n - 52))) * 2 ^ (n - 52)
        = (2::rat) ^ 52 * 2 ^ (n - 52)"
      by (simp only: d round_even_int) simp
    also have "\<dots> = 2 ^ (52 + (n - 52))" by (simp only: power_add)
    also have "\<dots> = 2 ^ n" using assms by simp
    finally show ?thesis .
  qed
  have p: "pow2 1024 = 2 ^ 1024" using pow2_nat [of 1024] by simp
  have le: "((2::rat) ^ 1024 \<le> 2 ^ n) = (1024 \<le> n)"
    by (rule power_increasing_iff) simp
  have a: "\<bar>(2::rat) ^ n\<bar> = 2 ^ n" by simp
  show ?thesis
    unfolding b64_def Let_def a e q r p le
    by (auto simp del: power_increasing_iff)
qed

lemma overflow_sum: "sum64 [2 ^ 1023, 2 ^ 1023] = PInf"
proof -
  have "(2::rat) ^ 1023 + 2 ^ 1023 = 2 ^ 1024"
    by (simp only: mult_2 [symmetric] power_Suc [symmetric]) simp
  then show ?thesis
    using b64_pow [of 1023] b64_pow [of 1024]
    by (simp add: sum64_def del: power_increasing_iff)
qed

lemma overflow_mean:
  "mean64 [2 ^ 1023, 2 ^ 1023] = PInf"
  "mean [2 ^ 1023, 2 ^ 1023] = 2 ^ 1023"
  "b64 (2 ^ 1023) = Fin (2 ^ 1023)"
proof -
  show "mean64 [2 ^ 1023, 2 ^ 1023] = PInf"
    by (simp only: mean64_def overflow_sum js_div_length.simps)
  show "mean [2 ^ 1023, 2 ^ 1023] = 2 ^ 1023"
    by (simp add: mean_def)
  show "b64 (2 ^ 1023) = Fin (2 ^ 1023)"
    using b64_pow [of 1023] by simp
qed

section \<open>The report\<close>

lemma map_of_set_prop:
  "map_of (set_prop k v r) k' = (if k' = k then Some v else map_of r k')"
  by (induction r) auto

lemma filter_set_prop:
  "k \<in> K \<Longrightarrow> filter (\<lambda>(k', v'). k' \<notin> K) (set_prop k v r) = filter (\<lambda>(k', v'). k' \<notin> K) r"
proof (induction r)
  case Nil
  then show ?case by simp
next
  case (Cons kv r)
  then show ?case by (cases kv) simp
qed

lemma percentage_keys_mem:
  "str ''positivePercentage'' \<in> percentage_keys"
  "str ''negativePercentage'' \<in> percentage_keys"
  "str ''neutralPercentage'' \<in> percentage_keys"
  by (simp_all add: percentage_keys_def)

lemma keys_distinct:
  "str ''positivePercentage'' \<noteq> str ''negativePercentage''"
  "str ''positivePercentage'' \<noteq> str ''neutralPercentage''"
  "str ''negativePercentage'' \<noteq> str ''neutralPercentage''"
  by (simp_all add: str_def)

lemma insert_numbers_get:
  "get_prop (insert_numbers a fin) k =
     (if k = str ''neutralPercentage'' then Some (JNum (Math_round (neuAvg a)))
      else if k = str ''negativePercentage'' then Some (JNum (Math_round (negAvg a)))
      else if k = str ''positivePercentage'' then Some (JNum (Math_round (posAvg a)))
      else get_prop fin k)"
  by (simp add: insert_numbers_def get_prop_def map_of_set_prop)

lemma insert_numbers_filter:
  "filter (\<lambda>(k, v). k \<notin> percentage_keys) (insert_numbers a fin)
     = filter (\<lambda>(k, v). k \<notin> percentage_keys) fin"
  by (simp only: insert_numbers_def filter_set_prop [OF percentage_keys_mem(1)]
      filter_set_prop [OF percentage_keys_mem(2)] filter_set_prop [OF percentage_keys_mem(3)])

section \<open>Concrete runs\<close>

lemma chunks_150: "chunk_loop (replicate 150 c) 0 [] = [replicate 100 c, replicate 50 c]"
  by (simp add: chunk_loop.simps slice_def)

lemma fence_stripped_answers:
  \<open>fence_stripped answer_60 = str ''{"pos":60,"neg":30,"neu":10}''\<close>
  \<open>fence_stripped answer_40 = str ''{"pos":40,"neg":35,"neu":25,"praise":["fun"]}''\<close>
  \<open>fence_stripped answer_no_pos = str ''{"neg":20,"neu":30}''\<close>
  \<open>fence_stripped answer_garbage = str ''NOT JSON''\<close>
  \<open>fence_stripped answer_below_half = str ''{"pos":0.49999999999999994,"neg":0,"neu":0}''\<close>
  \<open>fence_stripped answer_half = str ''{"pos":0.5,"neg":0,"neu":0}''\<close>
  \<open>fence_stripped answer_null = str ''null''\<close>
  \<open>fence_stripped answer_report = str ''{"positivePercentage":99,"contentIdeas":["q&a"]}''\<close>
  by (simp_all add: fence_stripped_def answer_60_def answer_40_def answer_no_pos_def
      answer_garbage_def answer_report_def answer_below_half_def answer_half_def
      answer_null_def str_def replace_all.simps match_at_def trim_def
      is_ws_def canon_def)

lemma toy_parse_partial_values:
  \<open>toy_parse_partial (str ''{"pos":60,"neg":30,"neu":10}'') =
     Inr (PObj \<lparr>pos = Some (Fin 60), neg = Some (Fin 30), neu = Some (Fin 10),
          praise = None, pain = None, themes = None\<rparr>)\<close>
  \<open>toy_parse_partial (str ''{"pos":40,"neg":35,"neu":25,"praise":["fun"]}'') =
     Inr (PObj \<lparr>pos = Some (Fin 40), neg = Some (Fin 35), neu = Some (Fin 25),
          praise = Some [str ''fun''], pain = None, themes = None\<rparr>)\<close>
  \<open>toy_parse_partial (str ''{"neg":20,"neu":30}'') =
     Inr (PObj \<lparr>pos = None, neg = Some (Fin 20), neu = Some (Fin 30),
          praise = None, pain = None, themes = None\<rparr>)\<close>
  \<open>toy_parse_partial (str ''{"pos":0.49999999999999994,"neg":0,"neu":0}'') =
     Inr (PObj \<lparr>pos = Some (Fin (1 / 2 - 1 / 2 ^ 54)), neg = Some (Fin 0),
          neu = Some (Fin 0), praise = None, pain = None, themes = None\<rparr>)\<close>
  \<open>toy_parse_partial (str ''{"pos":0.5,"neg":0,"neu":0}'') =
     Inr (PObj \<lparr>pos = Some (Fin (1 / 2)), neg = Some (Fin 0),
          neu = Some (Fin 0), praise = None, pain = None, themes = None\<rparr>)\<close>
  \<open>toy_parse_partial (str ''null'') = Inr PNull\<close>
  \<open>toy_parse_partial (str ''NOT JSON'') = Inl (str ''Unexpected token in JSON'')\<close>
  by (simp_all add: toy_parse_partial_def str_def)

lemma toy_parse_report_values:
  \<open>toy_parse_report (str ''{"positivePercentage":99,"contentIdeas":["q&a"]}'') =
     Inr [(str ''positivePercentage'', JNum (Fin 99)),
          (str ''contentIdeas'', JArr [JStr (str ''q&a'')])]\<close>
  \<open>toy_parse_report (str ''NOT JSON'') = Inl (str ''Unexpected token in JSON'')\<close>
  by (simp_all add: toy_parse_report_def str_def)

lemma toy_chunk_result:
  "n < length answers \<Longrightarrow> answers ! n = Inr raw \<Longrightarrow>
   chunk_result (toy_env answers) n chunk =
     (case toy_parse_partial (fence_stripped raw) of
        Inr p \<Rightarrow> Inr p
      | Inl err \<Rightarrow> Inr (PObj fallback))"
  by (simp add: chunk_result_def toy_env_def scripted_def)

lemma toy_final:
  "length sent < length answers \<Longrightarrow> answers ! length sent = Inr raw \<Longrightarrow>
   fst (runFinalPremium (toy_env answers) a sent) = toy_parse_report (fence_stripped raw)"
  by (simp add: runFinalPremium_def call_model_def toy_env_def scripted_def fence_stripped_def)

lemma sent_length:
  "length (snd (map_runChunk e chunks sent)) = length sent + length chunks"
  by (simp add: map_runChunk_eq)

lemma runFinalPremium_eq:
  "fst (runFinalPremium e a sent) =
     (case generateContent e (length sent) (buildPremiumPrompt e a) of
        Inl err \<Rightarrow> Inl err
      | Inr raw \<Rightarrow> JSON_parse_report e (fence_stripped raw))"
  by (simp add: runFinalPremium_def call_model_def fence_stripped_def split: sum.splits)

text \<open>Concrete run: 150 comments, two chunk answers, the synthesis answer.\<close>

lemma demo_partials:
  "Promise_all (answered_at (toy_env [Inr answer_60, Inr answer_40, Inr answer_report]))
     (fst (map_runChunk (toy_env [Inr answer_60, Inr answer_40, Inr answer_report])
       (chunk_loop (replicate 150 (str ''nice video'')) 0 []) [])) =
     Inr (map PObj
        [\<lparr>pos = Some (Fin 60), neg = Some (Fin 30), neu = Some (Fin 10),
            praise = None, pain = None, themes = None\<rparr>,
          \<lparr>pos = Some (Fin 40), neg = Some (Fin 35), neu = Some (Fin 25),
            praise = Some [str ''fun''], pain = None, themes = None\<rparr>])"
  by (simp add: Promise_all_Inr_iff chunks_150 map_runChunk_eq toy_chunk_result
      fence_stripped_answers toy_parse_partial_values del: map_runChunk.simps)

lemma demo_final:
  "fst (runFinalPremium (toy_env [Inr answer_60, Inr answer_40, Inr answer_report]) a
     (snd (map_runChunk (toy_env [Inr answer_60, Inr answer_40, Inr answer_report])
       (chunk_loop (replicate 150 (str ''nice video'')) 0 []) []))) =
     Inr [(str ''positivePercentage'', JNum (Fin 99)),
          (str ''contentIdeas'', JArr [JStr (str ''q&a'')])]"
proof -
  let ?answers = "[Inr answer_60, Inr answer_40, Inr answer_report]"
  let ?sent = "snd (map_runChunk (toy_env ?answers)
       (chunk_loop (replicate 150 (str ''nice video'')) 0 []) [])"
  have len: "length ?sent = 2" by (simp only: sent_length chunks_150) simp
  have "fst (runFinalPremium (toy_env ?answers) a ?sent) =
      toy_parse_report (fence_stripped answer_report)"
    by (rule toy_final) (simp_all only: len, simp_all)
  then show ?thesis
    by (simp only: fence_stripped_answers toy_parse_report_values)
qed

section \<open>Properties of the route\<close>

text \<open>
  C7. A request whose \<open>comments\<close> property is absent or is the empty list is answered
  with status 400 and the body \<open>{success:false, error:"No comments"}\<close>, and no prompt has
  been sent to the model.
\<close>

theorem no_comments_rejected:
  assumes "comments req = None \<or> comments req = Some []"
  shows "analyze e req = (\<lparr>status = 400, body = Failure (str ''No comments'')\<rparr>, [])"
  using assms by (rule analyze_no_comments)

theorem no_comments_rejected_witness:
  "analyze (toy_env []) \<lparr>comments = None\<rparr>
     = (\<lparr>status = 400, body = Failure (str ''No comments'')\<rparr>, [])
   \<and> analyze (toy_env []) \<lparr>comments = Some []\<rparr>
     = (\<lparr>status = 400, body = Failure (str ''No comments'')\<rparr>, [])"
  using no_comments_rejected [of "\<lparr>comments = None\<rparr>" "toy_env []"]
    no_comments_rejected [of "\<lparr>comments = Some []\<rparr>" "toy_env []"]
  by simp

text \<open>
  C10. For a non-empty comment list the route builds at least one chunk, and the list of
  partial results that \<open>Promise.all\<close> gives has the length of the chunk list; so the
  divisor \<open>partials.length\<close> of the three averages is never zero, and the division of a
  finite sum is the quotient, rounded to binary64.
\<close>

theorem divisor_at_least_one:
  assumes "cs \<noteq> []"
    and "Promise_all (answered_at e) (fst (map_runChunk e (chunk_loop cs 0 []) [])) = Inr ps"
  shows "1 \<le> length (chunk_loop cs 0 [])
       \<and> length ps = length (chunk_loop cs 0 [])
       \<and> length ps \<noteq> 0
       \<and> (\<forall>a. js_div_length (Fin a) (length ps) = b64 (a / of_nat (length ps)))"
proof -
  have "length ps = length (chunk_loop cs 0 [])"
    using Promise_all_length [OF assms(2)] by (simp add: map_runChunk_eq)
  moreover have "1 \<le> length (chunk_loop cs 0 [])"
    by (rule chunk_loop_nonempty [OF assms(1)])
  ultimately have "1 \<le> length ps" by simp
  then have "length ps \<noteq> 0" by (cases ps) simp_all
  then have "length ps \<noteq> 0" "\<forall>a. js_div_length (Fin a) (length ps) = b64 (a / of_nat (length ps))"
    by simp_all
  with \<open>length ps = length (chunk_loop cs 0 [])\<close> \<open>1 \<le> length (chunk_loop cs 0 [])\<close>
  show ?thesis by blast
qed

theorem divisor_at_least_one_witness:
  "length (chunk_loop (replicate 150 (str ''nice video'')) 0 []) = 2
   \<and> (\<forall>a. js_div_length (Fin a) 2 = b64 (a / 2))"
  using divisor_at_least_one [OF _ demo_partials] by (simp add: chunks_150)

lemma demo_request_comments:
  "comments demo_request = Some (replicate 150 (str ''nice video''))"
  "replicate 150 (str ''nice video'') \<noteq> []"
  by (simp_all add: demo_request_def)

text \<open>
  C9. When the synthesis stage gives a parsed object, the response carries that object with
  only the three percentage properties assigned: every other property
  (\<open>actionableInsight_premium\<close>, \<open>sentimentSummary_premium\<close>, \<open>topPraise_premium\<close>,
  \<open>topPainPoints_premium\<close>, \<open>strategicOpportunity\<close>, \<open>audienceDeepProfile\<close>,
  \<open>contentIdeas\<close>, \<open>engagementPatterns\<close> or any other) reads as it was parsed, and the
  other properties, in their order, are the parsed ones.
\<close>

theorem other_fields_pass_through:
  assumes "comments req = Some cs" and "cs \<noteq> []"
    and "Promise_all (answered_at e) (fst (map_runChunk e (chunk_loop cs 0 []) []))
           = Inr (map PObj ps)"
    and "fst (runFinalPremium e (aggregate_of ps) (snd (map_runChunk e (chunk_loop cs 0 []) []))) = Inr fin"
  shows "\<exists>data. fst (analyze e req) = \<lparr>status = 200, body = Success data\<rparr>
       \<and> (\<forall>k. k \<notin> percentage_keys \<longrightarrow> get_prop data k = get_prop fin k)
       \<and> filter (\<lambda>(k, v). k \<notin> percentage_keys) data
           = filter (\<lambda>(k, v). k \<notin> percentage_keys) fin"
proof -
  let ?data = "insert_numbers (aggregate_of ps) fin"
  have "fst (analyze e req) = \<lparr>status = 200, body = Success ?data\<rparr>"
    by (rule analyze_success [OF assms])
  moreover have "\<forall>k. k \<notin> percentage_keys \<longrightarrow> get_prop ?data k = get_prop fin k"
    by (simp add: insert_numbers_get percentage_keys_def)
  moreover note insert_numbers_filter [of "aggregate_of ps" fin]
  ultimately show ?thesis by blast
qed

theorem other_fields_pass_through_witness:
  "\<exists>data. fst (analyze (toy_env [Inr answer_60, Inr answer_40, Inr answer_report]) demo_request)
       = \<lparr>status = 200, body = Success data\<rparr>
     \<and> get_prop data (str ''contentIdeas'') = Some (JArr [JStr (str ''q&a'')])
     \<and> filter (\<lambda>(k, v). k \<notin> percentage_keys) data
         = [(str ''contentIdeas'', JArr [JStr (str ''q&a'')])]"
proof -
  have notin: "str ''contentIdeas'' \<notin> percentage_keys"
    by (simp add: percentage_keys_def str_def)
  obtain data where d:
    "fst (analyze (toy_env [Inr answer_60, Inr answer_40, Inr answer_report]) demo_request)
       = \<lparr>status = 200, body = Success data\<rparr>"
    "\<forall>k. k \<notin> percentage_keys \<longrightarrow> get_prop data k =
       get_prop [(str ''positivePercentage'', JNum (Fin 99)),
                 (str ''contentIdeas'', JArr [JStr (str ''q&a'')])] k"
    "filter (\<lambda>(k, v). k \<notin> percentage_keys) data
       = filter (\<lambda>(k, v). k \<notin> percentage_keys)
           [(str ''positivePercentage'', JNum (Fin 99)),
            (str ''contentIdeas'', JArr [JStr (str ''q&a'')])]"
    using other_fields_pass_through [OF demo_request_comments demo_partials demo_final]
    by blast
  from d(2) notin have "get_prop data (str ''contentIdeas'') = Some (JArr [JStr (str ''q&a'')])"
    by (simp add: get_prop_def str_def)
  moreover from d(3) notin have "filter (\<lambda>(k, v). k \<notin> percentage_keys) data
         = [(str ''contentIdeas'', JArr [JStr (str ''q&a'')])]"
    by (simp add: percentage_keys_mem)
  ultimately show ?thesis using d(1) by blast
qed

lemma Math_round_Fin: "Math_round (Fin a) = Fin (of_int (round a))"
  by (simp add: round_def)

lemma partials_nonempty:
  assumes "cs \<noteq> []"
    and "Promise_all (answered_at e) (fst (map_runChunk e (chunk_loop cs 0 []) []))
           = Inr (map PObj ps)"
  shows "ps \<noteq> []"
proof -
  have "length (map PObj ps) = length (chunk_loop cs 0 [])"
    using Promise_all_length [OF assms(2)] by (simp add: map_runChunk_eq)
  with chunk_loop_nonempty [OF assms(1)] show ?thesis by auto
qed

text \<open>
  C2. Whatever object the synthesis stage returns, the report's \<open>positivePercentage\<close>,
  \<open>negativePercentage\<close> and \<open>neutralPercentage\<close> are \<open>Math.round\<close> of the aggregate's
  averages of the partial results; the values that the synthesis object carried for the
  three properties do not enter the result. When the partial results' \<open>pos\<close>, \<open>neg\<close>,
  \<open>neu\<close> are finite numbers, the three properties are \<open>Math.round\<close> of the binary64 means of
  those numbers, and the rounded arithmetic mean whenever no operation of the binary64
  mean rounds.
\<close>

theorem percentages_are_rounded_averages:
  assumes "comments req = Some cs" and "cs \<noteq> []"
    and "Promise_all (answered_at e) (fst (map_runChunk e (chunk_loop cs 0 []) []))
           = Inr (map PObj ps)"
    and "fst (runFinalPremium e (aggregate_of ps) (snd (map_runChunk e (chunk_loop cs 0 []) []))) = Inr fin"
  shows "\<exists>data. fst (analyze e req) = \<lparr>status = 200, body = Success data\<rparr>
       \<and> get_prop data (str ''positivePercentage'') = Some (JNum (Math_round (posAvg (aggregate_of ps))))
       \<and> get_prop data (str ''negativePercentage'') = Some (JNum (Math_round (negAvg (aggregate_of ps))))
       \<and> get_prop data (str ''neutralPercentage'') = Some (JNum (Math_round (neuAvg (aggregate_of ps))))
       \<and> (\<forall>xs ys zs.
            map pos ps = map (\<lambda>x. Some (Fin x)) xs \<and>
            map neg ps = map (\<lambda>x. Some (Fin x)) ys \<and>
            map neu ps = map (\<lambda>x. Some (Fin x)) zs \<longrightarrow>
            get_prop data (str ''positivePercentage'') = Some (JNum (Math_round (mean64 xs))) \<and>
            get_prop data (str ''negativePercentage'') = Some (JNum (Math_round (mean64 ys))) \<and>
            get_prop data (str ''neutralPercentage'') = Some (JNum (Math_round (mean64 zs))) \<and>
            (exact_mean xs \<longrightarrow>
               get_prop data (str ''positivePercentage'')
                 = Some (JNum (Fin (of_int (round (mean xs)))))) \<and>
            (exact_mean ys \<longrightarrow>
               get_prop data (str ''negativePercentage'')
                 = Some (JNum (Fin (of_int (round (mean ys)))))) \<and>
            (exact_mean zs \<longrightarrow>
               get_prop data (str ''neutralPercentage'')
                 = Some (JNum (Fin (of_int (round (mean zs)))))))"
proof -
  let ?a = "aggregate_of ps"
  let ?data = "insert_numbers ?a fin"
  have resp: "fst (analyze e req) = \<lparr>status = 200, body = Success ?data\<rparr>"
    by (rule analyze_success [OF assms])
  have p: "get_prop ?data (str ''positivePercentage'') = Some (JNum (Math_round (posAvg ?a)))"
    and n: "get_prop ?data (str ''negativePercentage'') = Some (JNum (Math_round (negAvg ?a)))"
    and u: "get_prop ?data (str ''neutralPercentage'') = Some (JNum (Math_round (neuAvg ?a)))"
    by (simp_all add: insert_numbers_get keys_distinct)
  have ne: "ps \<noteq> []" by (rule partials_nonempty [OF assms(2,3)])
  have "get_prop ?data (str ''positivePercentage'') = Some (JNum (Math_round (mean64 xs))) \<and>
        get_prop ?data (str ''negativePercentage'') = Some (JNum (Math_round (mean64 ys))) \<and>
        get_prop ?data (str ''neutralPercentage'') = Some (JNum (Math_round (mean64 zs))) \<and>
        (exact_mean xs \<longrightarrow>
           get_prop ?data (str ''positivePercentage'')
             = Some (JNum (Fin (of_int (round (mean xs)))))) \<and>
        (exact_mean ys \<longrightarrow>
           get_prop ?data (str ''negativePercentage'')
             = Some (JNum (Fin (of_int (round (mean ys)))))) \<and>
        (exact_mean zs \<longrightarrow>
           get_prop ?data (str ''neutralPercentage'')
             = Some (JNum (Fin (of_int (round (mean zs))))))"
    if m: "map pos ps = map (\<lambda>x. Some (Fin x)) xs" "map neg ps = map (\<lambda>x. Some (Fin x)) ys"
       "map neu ps = map (\<lambda>x. Some (Fin x)) zs" for xs ys zs
  proof -
    note a = aggregate_avgs(1) [OF m(1)] aggregate_avgs(2) [OF m(2)] aggregate_avgs(3) [OF m(3)]
    have x: "exact_mean xs \<Longrightarrow> Math_round (mean64 xs) = Fin (of_int (round (mean xs)))"
      using mean64_exact [OF values_nonempty [OF ne m(1)]] by (simp only: Math_round_Fin)
    have y: "exact_mean ys \<Longrightarrow> Math_round (mean64 ys) = Fin (of_int (round (mean ys)))"
      using mean64_exact [OF values_nonempty [OF ne m(2)]] by (simp only: Math_round_Fin)
    have z: "exact_mean zs \<Longrightarrow> Math_round (mean64 zs) = Fin (of_int (round (mean zs)))"
      using mean64_exact [OF values_nonempty [OF ne m(3)]] by (simp only: Math_round_Fin)
    from p n u x y z show ?thesis by (simp only: a) blast
  qed
  with resp p n u show ?thesis by blast
qed

theorem percentages_are_rounded_averages_witness:
  "\<exists>data. fst (analyze (toy_env [Inr answer_60, Inr answer_40, Inr answer_report]) demo_request)
       = \<lparr>status = 200, body = Success data\<rparr>
     \<and> get_prop data (str ''positivePercentage'') = Some (JNum (Fin 50))
     \<and> get_prop data (str ''negativePercentage'') = Some (JNum (Fin 33))
     \<and> get_prop data (str ''neutralPercentage'') = Some (JNum (Fin 18))"
proof -
  let ?ps = "[\<lparr>pos = Some (Fin 60), neg = Some (Fin 30), neu = Some (Fin 10),
            praise = None, pain = None, themes = None\<rparr>,
          \<lparr>pos = Some (Fin 40), neg = Some (Fin 35), neu = Some (Fin 25),
            praise = Some [str ''fun''], pain = None, themes = None\<rparr>]"
  have m: "map pos ?ps = map (\<lambda>x. Some (Fin x)) [60, 40]
      \<and> map neg ?ps = map (\<lambda>x. Some (Fin x)) [30, 35]
      \<and> map neu ?ps = map (\<lambda>x. Some (Fin x)) [10, 25]"
    by simp
  have r1: "round (mean [60, 40]) = 50" by code_simp
  have r2: "round (mean [30, 35]) = 33" by code_simp
  have r3: "round (mean [10, 25]) = 18" by code_simp
  note r = r1 r2 r3
  obtain data where d:
    "fst (analyze (toy_env [Inr answer_60, Inr answer_40, Inr answer_report]) demo_request)
       = \<lparr>status = 200, body = Success data\<rparr>"
    "\<forall>xs ys zs.
       map pos ?ps = map (\<lambda>x. Some (Fin x)) xs \<and>
       map neg ?ps = map (\<lambda>x. Some (Fin x)) ys \<and>
       map neu ?ps = map (\<lambda>x. Some (Fin x)) zs \<longrightarrow>
       get_prop data (str ''positivePercentage'') = Some (JNum (Math_round (mean64 xs))) \<and>
       get_prop data (str ''negativePercentage'') = Some (JNum (Math_round (mean64 ys))) \<and>
       get_prop data (str ''neutralPercentage'') = Some (JNum (Math_round (mean64 zs))) \<and>
       (exact_mean xs \<longrightarrow>
          get_prop data (str ''positivePercentage'')
            = Some (JNum (Fin (of_int (round (mean xs)))))) \<and>
       (exact_mean ys \<longrightarrow>
          get_prop data (str ''negativePercentage'')
            = Some (JNum (Fin (of_int (round (mean ys)))))) \<and>
       (exact_mean zs \<longrightarrow>
          get_prop data (str ''neutralPercentage'')
            = Some (JNum (Fin (of_int (round (mean zs))))))"
    using percentages_are_rounded_averages [OF demo_request_comments demo_partials demo_final]
    by blast
  from d(2) m exact_60_40 have
    "get_prop data (str ''positivePercentage'') = Some (JNum (Fin (of_int (round (mean [60, 40])))))
     \<and> get_prop data (str ''negativePercentage'') = Some (JNum (Fin (of_int (round (mean [30, 35])))))
     \<and> get_prop data (str ''neutralPercentage'') = Some (JNum (Fin (of_int (round (mean [10, 25])))))"
    by blast
  with d(1) show ?thesis by (simp only: r) auto
qed

lemma demo_partials_tie:
  "Promise_all (answered_at (toy_env [Inr answer_below_half, Inr answer_half, Inr answer_report]))
     (fst (map_runChunk (toy_env [Inr answer_below_half, Inr answer_half, Inr answer_report])
       (chunk_loop (replicate 150 (str ''nice video'')) 0 []) [])) =
     Inr (map PObj
        [\<lparr>pos = Some (Fin (1 / 2 - 1 / 2 ^ 54)), neg = Some (Fin 0), neu = Some (Fin 0),
            praise = None, pain = None, themes = None\<rparr>,
          \<lparr>pos = Some (Fin (1 / 2)), neg = Some (Fin 0), neu = Some (Fin 0),
            praise = None, pain = None, themes = None\<rparr>])"
  by (simp add: Promise_all_Inr_iff chunks_150 map_runChunk_eq toy_chunk_result
      fence_stripped_answers toy_parse_partial_values del: map_runChunk.simps)

lemma toy_final_third:
  "fst (runFinalPremium (toy_env [a0, a1, Inr raw]) a
     (snd (map_runChunk (toy_env [a0, a1, Inr raw])
       (chunk_loop (replicate 150 (str ''nice video'')) 0 []) []))) =
     toy_parse_report (fence_stripped raw)"
proof -
  let ?sent = "snd (map_runChunk (toy_env [a0, a1, Inr raw])
       (chunk_loop (replicate 150 (str ''nice video'')) 0 []) [])"
  have len: "length ?sent = 2" by (simp only: sent_length chunks_150) simp
  show ?thesis by (rule toy_final) (simp_all only: len, simp_all)
qed

lemma demo_aggregate_tie:
  "aggregate_of
     [\<lparr>pos = Some (Fin (1 / 2 - 1 / 2 ^ 54)), neg = Some (Fin 0), neu = Some (Fin 0),
        praise = None, pain = None, themes = None\<rparr>,
      \<lparr>pos = Some (Fin (1 / 2)), neg = Some (Fin 0), neu = Some (Fin 0),
        praise = None, pain = None, themes = None\<rparr>]
   = \<lparr>posAvg = Fin (1 / 2), negAvg = Fin 0, neuAvg = Fin 0,
      praise_agg = [], pain_agg = [], themes_agg = []\<rparr>"
  by code_simp

lemma round_tie: "Math_round (Fin (1 / 2)) = Fin 1" "Math_round (Fin 0) = Fin 0"
  by code_simp+

lemma round_tie_mean: "round (mean [1 / 2 - 1 / 2 ^ 54, 1 / 2]) = 0"
  by code_simp

text \<open>
  The two decimals \<open>0.49999999999999994\<close> and \<open>0.5\<close> as \<open>JSON.parse\<close> reads them.
\<close>

lemma tie_decimals_read:
  "b64 (49999999999999994 / 10 ^ 17) = Fin (1 / 2 - 1 / 2 ^ 54)"
  "b64 (5 / 10) = Fin (1 / 2)"
  by code_simp+

text \<open>
  With \<open>pos\<close> 0.49999999999999994 in the first chunk's result and 0.5 in the second, the
  binary64 sum is 1 and \<open>posAvg\<close> is 0.5, so \<open>positivePercentage\<close> is 1; the arithmetic
  mean of the two values is below one half and rounds to 0.
\<close>

theorem rounded_mean_counterexample:
  "fst (analyze (toy_env [Inr answer_below_half, Inr answer_half, Inr answer_report]) demo_request)
     = \<lparr>status = 200,
        body = Success [(str ''positivePercentage'', JNum (Fin 1)),
                        (str ''contentIdeas'', JArr [JStr (str ''q&a'')]),
                        (str ''negativePercentage'', JNum (Fin 0)),
                        (str ''neutralPercentage'', JNum (Fin 0))]\<rparr>
   \<and> round (mean [1 / 2 - 1 / 2 ^ 54, 1 / 2]) = 0"
proof -
  let ?e = "toy_env [Inr answer_below_half, Inr answer_half, Inr answer_report]"
  have fin: "fst (runFinalPremium ?e a
       (snd (map_runChunk ?e (chunk_loop (replicate 150 (str ''nice video'')) 0 []) [])))
     = Inr [(str ''positivePercentage'', JNum (Fin 99)),
            (str ''contentIdeas'', JArr [JStr (str ''q&a'')])]" for a
    by (simp only: toy_final_third fence_stripped_answers toy_parse_report_values)
  have "insert_numbers \<lparr>posAvg = Fin (1 / 2), negAvg = Fin 0, neuAvg = Fin 0,
      praise_agg = [], pain_agg = [], themes_agg = []\<rparr>
      [(str ''positivePercentage'', JNum (Fin 99)),
       (str ''contentIdeas'', JArr [JStr (str ''q&a'')])]
    = [(str ''positivePercentage'', JNum (Fin 1)),
       (str ''contentIdeas'', JArr [JStr (str ''q&a'')]),
       (str ''negativePercentage'', JNum (Fin 0)),
       (str ''neutralPercentage'', JNum (Fin 0))]"
    unfolding insert_numbers_def aggregate.simps round_tie
    by (simp add: str_def)
  with analyze_success [OF demo_request_comments demo_partials_tie fin]
  show ?thesis by (simp only: demo_aggregate_tie round_tie_mean simp_thms)
qed

lemma chunk_result_Inr:
  "generateContent e n (buildChunkPrompt c) = Inr raw \<Longrightarrow> \<exists>p. chunk_result e n c = Inr p"
  by (simp add: chunk_result_def split: sum.splits)



text \<open>
  C5. When the chunk stage has given its partial results and the synthesis response, after
  fence stripping and trimming, does not parse, the parse error leaves \<open>runFinalPremium\<close>
  and the route answers with status 500 and the body \<open>{success:false, error}\<close> carrying
  that error's message.
\<close>

theorem synthesis_parse_failure_is_fatal:
  assumes "comments req = Some cs" and "cs \<noteq> []"
    and "Promise_all (answered_at e) (fst (map_runChunk e (chunk_loop cs 0 []) []))
           = Inr (map PObj ps)"
    and "generateContent e (length (chunk_loop cs 0 [])) (buildPremiumPrompt e (aggregate_of ps)) = Inr raw"
    and "JSON_parse_report e (fence_stripped raw) = Inl err"
  shows "fst (runFinalPremium e (aggregate_of ps) (snd (map_runChunk e (chunk_loop cs 0 []) []))) = Inl err
       \<and> fst (analyze e req) = \<lparr>status = 500, body = Failure err\<rparr>"
proof -
  have "fst (runFinalPremium e (aggregate_of ps) (snd (map_runChunk e (chunk_loop cs 0 []) []))) = Inl err"
    using assms(4,5) by (simp add: runFinalPremium_eq sent_length del: map_runChunk.simps)
  with analyze_failure [OF assms(1,2,3)] show ?thesis by blast
qed

lemma demo_partials_5:
  "Promise_all (answered_at (toy_env [Inr answer_60, Inr answer_40, Inr answer_garbage]))
     (fst (map_runChunk (toy_env [Inr answer_60, Inr answer_40, Inr answer_garbage])
       (chunk_loop (replicate 150 (str ''nice video'')) 0 []) [])) =
     Inr (map PObj
        [\<lparr>pos = Some (Fin 60), neg = Some (Fin 30), neu = Some (Fin 10),
            praise = None, pain = None, themes = None\<rparr>,
          \<lparr>pos = Some (Fin 40), neg = Some (Fin 35), neu = Some (Fin 25),
            praise = Some [str ''fun''], pain = None, themes = None\<rparr>])"
  by (simp add: Promise_all_Inr_iff chunks_150 map_runChunk_eq toy_chunk_result
      fence_stripped_answers toy_parse_partial_values del: map_runChunk.simps)

theorem synthesis_parse_failure_is_fatal_witness:
  "fst (analyze (toy_env [Inr answer_60, Inr answer_40, Inr answer_garbage]) demo_request)
     = \<lparr>status = 500, body = Failure (str ''Unexpected token in JSON'')\<rparr>"
proof -
  let ?e = "toy_env [Inr answer_60, Inr answer_40, Inr answer_garbage]"
  have g: "generateContent ?e (length (chunk_loop (replicate 150 (str ''nice video'')) 0 [])) p
      = Inr answer_garbage" for p
    by (simp add: chunks_150 toy_env_def scripted_def)
  have f: "JSON_parse_report ?e (fence_stripped answer_garbage) = Inl (str ''Unexpected token in JSON'')"
    by (simp add: toy_env_def fence_stripped_answers toy_parse_report_values)
  show ?thesis
    using synthesis_parse_failure_is_fatal [OF demo_request_comments demo_partials_5 g f]
    by simp
qed



lemma demo_partials_null:
  "Promise_all (answered_at (toy_env [Inr answer_garbage, Inr answer_null, Inr answer_report]))
     (fst (map_runChunk (toy_env [Inr answer_garbage, Inr answer_null, Inr answer_report])
       (chunk_loop (replicate 150 (str ''nice video'')) 0 []) [])) =
     Inr [PObj fallback, PNull]"
  by (simp add: Promise_all_Inr_iff chunks_150 map_runChunk_eq toy_chunk_result
      fence_stripped_answers toy_parse_partial_values del: map_runChunk.simps)

lemma null_chunk_is_fatal:
  "fst (analyze (toy_env [Inr answer_garbage, Inr answer_null, Inr answer_report]) demo_request)
     = \<lparr>status = 500, body = Failure null_read\<rparr>"
  by (rule analyze_null [OF demo_request_comments demo_partials_null]) simp

lemma demo_partials_6:
  "Promise_all (answered_at (toy_env [Inr answer_no_pos, Inr answer_40, Inr answer_report]))
     (fst (map_runChunk (toy_env [Inr answer_no_pos, Inr answer_40, Inr answer_report])
       (chunk_loop (replicate 150 (str ''nice video'')) 0 []) [])) =
     Inr (map PObj
        [\<lparr>pos = None, neg = Some (Fin 20), neu = Some (Fin 30),
            praise = None, pain = None, themes = None\<rparr>,
          \<lparr>pos = Some (Fin 40), neg = Some (Fin 35), neu = Some (Fin 25),
            praise = Some [str ''fun''], pain = None, themes = None\<rparr>])"
  by (simp add: Promise_all_Inr_iff chunks_150 map_runChunk_eq toy_chunk_result
      fence_stripped_answers toy_parse_partial_values del: map_runChunk.simps)

lemma demo_aggregate_6:
  "aggregate_of
     [\<lparr>pos = None, neg = Some (Fin 20), neu = Some (Fin 30),
        praise = None, pain = None, themes = None\<rparr>,
      \<lparr>pos = Some (Fin 40), neg = Some (Fin 35), neu = Some (Fin 25),
        praise = Some [str ''fun''], pain = None, themes = None\<rparr>]
   = \<lparr>posAvg = NaN, negAvg = Fin (55 / 2), neuAvg = Fin (55 / 2),
      praise_agg = [str ''fun''], pain_agg = [], themes_agg = []\<rparr>"
  by code_simp

lemma round_55_2: "Math_round (Fin (55 / 2)) = Fin 28"
  by code_simp
text \<open>
  C6. The aggregator coalesces a missing \<open>praise\<close>, \<open>pain\<close> or \<open>themes\<close> list to the
  empty list, but it adds a missing \<open>pos\<close>, \<open>neg\<close> or \<open>neu\<close> as \<open>undefined\<close>: the sum
  and the average become NaN, not the average with the missing value counted as zero.
  The run below has 150 comments; the first chunk's response omits \<open>pos\<close>, the second
  has \<open>pos\<close> 40. The report's \<open>positivePercentage\<close> is NaN (20 if the missing value
  counted as zero).
\<close>

theorem missing_pos_gives_NaN:
  "fst (analyze (toy_env [Inr answer_no_pos, Inr answer_40, Inr answer_report]) demo_request)
     = \<lparr>status = 200,
        body = Success [(str ''positivePercentage'', JNum NaN),
                        (str ''contentIdeas'', JArr [JStr (str ''q&a'')]),
                        (str ''negativePercentage'', JNum (Fin 28)),
                        (str ''neutralPercentage'', JNum (Fin 28))]\<rparr>"
proof -
  let ?e = "toy_env [Inr answer_no_pos, Inr answer_40, Inr answer_report]"
  have fin: "fst (runFinalPremium ?e a
       (snd (map_runChunk ?e (chunk_loop (replicate 150 (str ''nice video'')) 0 []) [])))
     = Inr [(str ''positivePercentage'', JNum (Fin 99)),
            (str ''contentIdeas'', JArr [JStr (str ''q&a'')])]" for a
    by (simp only: toy_final_third fence_stripped_answers toy_parse_report_values)
  have "insert_numbers \<lparr>posAvg = NaN, negAvg = Fin (55 / 2), neuAvg = Fin (55 / 2),
      praise_agg = [str ''fun''], pain_agg = [], themes_agg = []\<rparr>
      [(str ''positivePercentage'', JNum (Fin 99)),
       (str ''contentIdeas'', JArr [JStr (str ''q&a'')])]
    = [(str ''positivePercentage'', JNum NaN),
       (str ''contentIdeas'', JArr [JStr (str ''q&a'')]),
       (str ''negativePercentage'', JNum (Fin 28)),
       (str ''neutralPercentage'', JNum (Fin 28))]"
    unfolding insert_numbers_def aggregate.simps round_55_2
    by (simp add: str_def)
  with analyze_success [OF demo_request_comments demo_partials_6 fin]
  show ?thesis by (simp only: demo_aggregate_6)
qed

section \<open>Fence stripping\<close>

lemma str_fence: "str ''```'' = [96, 96, 96]" "str ''```json'' = [96, 96, 96, 106, 115, 111, 110]"
  "str ''json'' = [106, 115, 111, 110]"
  by (simp_all add: str_def)

lemma replace_all_Nil: "replace_all f pat [] = []"
  by (simp add: replace_all.simps)

lemma replace_all_match:
  "pat \<noteq> [] \<Longrightarrow> match_at f pat s \<Longrightarrow>
   replace_all f pat s = replace_all f pat (drop (length pat) s)"
  by (subst replace_all.simps) (auto simp: match_at_def)

lemma replace_all_skip:
  "\<not> match_at f pat (c # s) \<Longrightarrow> replace_all f pat (c # s) = c # replace_all f pat s"
  by (subst replace_all.simps) simp

lemma subseq_replace_all: "subseq (replace_all f pat s) s"
proof (induction f pat s rule: replace_all.induct)
  case (1 f pat s)
  show ?case
  proof (cases "s = []")
    case True
    then show ?thesis by (simp add: replace_all_Nil)
  next
    case ne: False
    show ?thesis
    proof (cases "pat \<noteq> [] \<and> match_at f pat s")
      case True
      with ne 1 have "subseq (replace_all f pat (drop (length pat) s)) (drop (length pat) s)"
        by simp
      moreover have "subseq (drop (length pat) s) s"
        by (rule sublist_imp_subseq [OF suffix_imp_sublist [OF suffix_drop]])
      ultimately have "subseq (replace_all f pat (drop (length pat) s)) s"
        by (rule subseq_order.order_trans)
      with True show ?thesis by (simp add: replace_all_match)
    next
      case False
      with ne 1 have "subseq (replace_all f pat (tl s)) (tl s)" by simp
      moreover from ne obtain c s' where s: "s = c # s'" by (cases s) auto
      ultimately have "subseq (c # replace_all f pat s') (c # s')" by simp
      moreover from False s have "replace_all f pat s = c # replace_all f pat s'"
        by (subst replace_all.simps) auto
      ultimately show ?thesis using s by simp
    qed
  qed
qed

lemma ticks_simps:
  "ticks [] = 0"
  "ticks (c # s) = (if c = 96 then Suc (ticks s) else 0)"
  by (simp_all add: ticks_def)

lemma ticks_ge3: "3 \<le> ticks s \<longleftrightarrow> (\<exists>r. s = 96 # 96 # 96 # r)"
proof
  assume a: "3 \<le> ticks s"
  then obtain a s1 where "s = a # s1" by (cases s) (auto simp: ticks_simps)
  moreover with a have "a = 96" "2 \<le> ticks s1" by (auto simp: ticks_simps split: if_splits)
  moreover then obtain b s2 where "s1 = b # s2" by (cases s1) (auto simp: ticks_simps)
  moreover with \<open>2 \<le> ticks s1\<close> have "b = 96" "1 \<le> ticks s2"
    by (auto simp: ticks_simps split: if_splits)
  moreover then obtain c s3 where "s2 = c # s3" by (cases s2) (auto simp: ticks_simps)
  moreover with \<open>1 \<le> ticks s2\<close> have "c = 96" by (auto simp: ticks_simps split: if_splits)
  ultimately show "\<exists>r. s = 96 # 96 # 96 # r" by blast
next
  assume "\<exists>r. s = 96 # 96 # 96 # r"
  then show "3 \<le> ticks s" by (auto simp: ticks_simps)
qed

lemma match3_ticks: "match_at id [96, 96, 96] s \<longleftrightarrow> 3 \<le> ticks s"
proof -
  have "match_at id [96, 96, 96] s \<longleftrightarrow> (\<exists>r. s = 96 # 96 # 96 # r)"
  proof
    assume m: "match_at id [96, 96, 96] s"
    then have "take 3 s = [96, 96, 96]" by (simp add: match_at_def numeral_3_eq_3)
    then have "s = [96, 96, 96] @ drop 3 s" by (metis append_take_drop_id)
    then show "\<exists>r. s = 96 # 96 # 96 # r" by auto
  next
    assume "\<exists>r. s = 96 # 96 # 96 # r"
    then show "match_at id [96, 96, 96] s" by (auto simp: match_at_def)
  qed
  then show ?thesis by (simp only: ticks_ge3)
qed

lemma prefix3_ticks: "prefix [96, 96, 96] s \<longleftrightarrow> 3 \<le> ticks s"
  by (auto simp: ticks_ge3 prefix_def)

lemma ticks_replace_all: "ticks (replace_all id [96, 96, 96] s) = ticks s mod 3"
proof (induction "length s" arbitrary: s rule: less_induct)
  case less
  show ?case
  proof (cases "3 \<le> ticks s")
    case True
    then obtain r where s: "s = 96 # 96 # 96 # r" by (auto simp: ticks_ge3)
    with True have "replace_all id [96, 96, 96] s = replace_all id [96, 96, 96] r"
      using replace_all_match [of "[96, 96, 96]" id s] by (simp add: match3_ticks)
    moreover have "ticks (replace_all id [96, 96, 96] r) = ticks r mod 3"
      by (rule less.hyps) (simp add: s)
    moreover from s have "ticks s = ticks r + 3" by (simp add: ticks_simps)
    ultimately show ?thesis by simp
  next
    case False
    show ?thesis
    proof (cases s)
      case Nil
      then show ?thesis by (simp add: replace_all_Nil ticks_simps)
    next
      case (Cons c s')
      with False have r: "replace_all id [96, 96, 96] s = c # replace_all id [96, 96, 96] s'"
        using replace_all_skip [of id "[96, 96, 96]" c s'] by (simp add: match3_ticks)
      have ih: "ticks (replace_all id [96, 96, 96] s') = ticks s' mod 3"
        by (rule less.hyps) (simp add: Cons)
      show ?thesis
      proof (cases "c = 96")
        case True
        with Cons False have "ticks s' < 2" by (simp add: ticks_simps)
        with True Cons r ih show ?thesis by (simp add: ticks_simps)
      next
        case False
        with Cons r show ?thesis by (simp add: ticks_simps)
      qed
    qed
  qed
qed

lemma no_fence_replace_all: "\<not> sublist [96, 96, 96] (replace_all id [96, 96, 96] s)"
proof (induction "length s" arbitrary: s rule: less_induct)
  case less
  show ?case
  proof (cases "3 \<le> ticks s")
    case True
    then obtain r where s: "s = 96 # 96 # 96 # r" by (auto simp: ticks_ge3)
    with True have "replace_all id [96, 96, 96] s = replace_all id [96, 96, 96] r"
      using replace_all_match [of "[96, 96, 96]" id s] by (simp add: match3_ticks)
    moreover have "\<not> sublist [96, 96, 96] (replace_all id [96, 96, 96] r)"
      by (rule less.hyps) (simp add: s)
    ultimately show ?thesis by simp
  next
    case False
    show ?thesis
    proof (cases s)
      case Nil
      then show ?thesis by (simp add: replace_all_Nil)
    next
      case (Cons c s')
      with False have r: "replace_all id [96, 96, 96] s = c # replace_all id [96, 96, 96] s'"
        using replace_all_skip [of id "[96, 96, 96]" c s'] by (simp add: match3_ticks)
      have "ticks (replace_all id [96, 96, 96] s) < 3"
        by (simp add: ticks_replace_all)
      then have "\<not> prefix [96, 96, 96] (replace_all id [96, 96, 96] s)"
        by (simp add: prefix3_ticks)
      moreover have "\<not> sublist [96, 96, 96] (replace_all id [96, 96, 96] s')"
        by (rule less.hyps) (simp add: Cons)
      ultimately show ?thesis using r by (simp add: sublist_Cons_right)
    qed
  qed
qed

lemma prefix_rev_dropWhile: "prefix (rev (dropWhile P (rev y))) y"
  using suffix_dropWhile [of P "rev y"] by (simp add: suffix_to_prefix)

lemma sublist_trim: "sublist (trim x) x"
proof -
  have "sublist (trim x) (dropWhile is_ws x)"
    unfolding trim_def by (rule prefix_imp_sublist [OF prefix_rev_dropWhile])
  moreover have "sublist (dropWhile is_ws x) x"
    by (rule suffix_imp_sublist [OF suffix_dropWhile])
  ultimately show ?thesis by (rule sublist_order.order.trans)
qed

lemma trim_ends:
  assumes "trim x \<noteq> []"
  shows "\<not> is_ws (hd (trim x)) \<and> \<not> is_ws (last (trim x))"
proof -
  let ?y = "dropWhile is_ws x"
  let ?z = "dropWhile is_ws (rev ?y)"
  from assms have z: "?z \<noteq> []" by (simp add: trim_def)
  then have "\<not> is_ws (hd ?z)" by (rule hd_dropWhile)
  with z have l: "\<not> is_ws (last (trim x))" by (simp add: trim_def last_rev)
  have y: "?y \<noteq> []"
  proof
    assume "?y = []"
    then have "?z = []" by (simp only: rev.simps dropWhile.simps)
    with z show False by (simp only:)
  qed
  then have hy: "\<not> is_ws (hd ?y)" by (rule hd_dropWhile)
  have "prefix (trim x) ?y" unfolding trim_def by (rule prefix_rev_dropWhile)
  with assms have "hd (trim x) = hd ?y" by (auto simp: prefix_def)
  with hy l show ?thesis by simp
qed

lemma canon_tick: "canon c = 96 \<longleftrightarrow> c = 96"
  by (auto simp: canon_def)

lemma canon_eq_tick: "canon c = canon 96 \<Longrightarrow> c = 96"
  by (auto simp: canon_def split: if_splits)

lemma canon_J: "canon c = 74 \<longleftrightarrow> c = 74 \<or> c = 106"
  by (auto simp: canon_def)

lemma is_ws_not_tick: "is_ws c \<Longrightarrow> c \<noteq> 96"
  by (auto simp: is_ws_def)

lemma is_ws_not_J: "is_ws c \<Longrightarrow> canon c \<noteq> 74"
  by (auto simp: is_ws_def canon_J)

lemma skip_prefix:
  assumes "96 \<notin> set pre" and "\<And>c. f c = f 96 \<Longrightarrow> c = 96"
  shows "replace_all f (96 # pat) (pre @ rest) = pre @ replace_all f (96 # pat) rest"
  using assms(1)
proof (induction pre)
  case Nil
  then show ?case by simp
next
  case (Cons c pre)
  then have "c \<noteq> 96" by simp
  with assms(2) have "\<not> match_at f (96 # pat) (c # pre @ rest)"
    by (auto simp: match_at_def)
  with Cons show ?case by (simp add: replace_all_skip)
qed

lemma skip_all:
  assumes "96 \<notin> set s" and "\<And>c. f c = f 96 \<Longrightarrow> c = 96"
  shows "replace_all f (96 # pat) s = s"
  using skip_prefix [OF assms, where pat = pat and rest = "[]"] by (simp add: replace_all_Nil)

lemma four_elems: "4 \<le> length x \<Longrightarrow> \<exists>a b c d r. x = a # b # c # d # r"
  by (auto simp: numeral_eq_Suc Suc_le_length_iff)

lemma json_match_needs_tick_J:
  assumes "match_at canon [96, 96, 96, 106, 115, 111, 110] x"
  shows "\<exists>a b d r. x = a # b # 96 # d # r \<and> canon d = 74"
proof -
  let ?P7 = "[96, 96, 96, 106, 115, 111, 110] :: nat list"
  from assms have len: "length ?P7 \<le> length x"
    and m: "map canon (take (length ?P7) x) = map canon ?P7"
    unfolding match_at_def by blast+
  from len have "4 \<le> length x" by simp
  then obtain a b c d r where x: "x = a # b # c # d # r"
    using four_elems [of x] by auto
  from m have "map canon (take (length ?P7) x) ! 2 = map canon ?P7 ! 2"
    "map canon (take (length ?P7) x) ! 3 = map canon ?P7 ! 3" by simp_all
  with x have "canon c = canon 96" "canon d = canon 106"
    by (simp_all add: numeral_eq_Suc)
  then have "c = 96" "canon d = 74" by (simp_all add: canon_def split: if_splits)
  with x show ?thesis by blast
qed

lemma no_tick_J_identity:
  "successively (\<lambda>x y. x = 96 \<longrightarrow> canon y \<noteq> 74) s \<Longrightarrow>
   replace_all canon [96, 96, 96, 106, 115, 111, 110] s = s"
proof (induction s)
  case Nil
  then show ?case by (simp add: replace_all_Nil)
next
  case (Cons c s)
  have "\<not> match_at canon [96, 96, 96, 106, 115, 111, 110] (c # s)"
  proof
    assume "match_at canon [96, 96, 96, 106, 115, 111, 110] (c # s)"
    from json_match_needs_tick_J [OF this] obtain a b d r where
      "c # s = a # b # 96 # d # r" "canon d = 74" by blast
    with Cons.prems show False by auto
  qed
  moreover from Cons.prems have "successively (\<lambda>x y. x = 96 \<longrightarrow> canon y \<noteq> 74) s"
    by (cases s) auto
  ultimately show ?case using Cons.IH by (simp add: replace_all_skip)
qed

lemma successively_no_tick:
  "96 \<notin> set s \<Longrightarrow> successively (\<lambda>x y. x = 96 \<longrightarrow> Q y) s"
proof (induction s)
  case Nil
  then show ?case by simp
next
  case (Cons a s)
  then show ?case by (cases s) auto
qed

lemma trim_pad:
  assumes "\<forall>c\<in>set ws1. is_ws c" and "\<forall>c\<in>set ws2. is_ws c"
  shows "trim (ws1 @ inner @ ws2) = trim inner"
proof -
  from assms(1) have d1: "dropWhile is_ws (ws1 @ inner @ ws2) = dropWhile is_ws (inner @ ws2)"
    by simp
  show ?thesis
  proof (cases "\<forall>c\<in>set inner. is_ws c")
    case True
    with assms(2) have "dropWhile is_ws (inner @ ws2) = []" "dropWhile is_ws inner = []"
      by auto
    with d1 show ?thesis by (simp only: trim_def rev.simps dropWhile.simps)
  next
    case False
    then obtain x where "x \<in> set inner" "\<not> is_ws x" by blast
    then have "dropWhile is_ws (inner @ ws2) = dropWhile is_ws inner @ ws2"
      by (rule dropWhile_append1)
    moreover from assms(2) have
      "dropWhile is_ws (rev ws2 @ rev (dropWhile is_ws inner)) = dropWhile is_ws (rev (dropWhile is_ws inner))"
      by (intro dropWhile_append2) simp
    ultimately show ?thesis using d1 by (simp only: trim_def rev_append)
  qed
qed

lemma fenced_json:
  assumes tag: "map canon tag = map canon (str ''json'')"
    and inner: "96 \<notin> set inner"
    and ws1: "\<forall>c\<in>set ws1. is_ws c" and ws2: "\<forall>c\<in>set ws2. is_ws c"
  shows "fence_stripped (ws1 @ str ''```'' @ tag @ inner @ str ''```'' @ ws2) = trim inner"
proof -
  let ?P7 = "[96, 96, 96, 106, 115, 111, 110] :: nat list"
  let ?P3 = "[96, 96, 96] :: nat list"
  from ws1 ws2 have t1: "96 \<notin> set ws1" and t2: "96 \<notin> set ws2"
    using is_ws_not_tick by blast+
  from tag have "length (map canon tag) = length (map canon (str ''json''))" by (simp only:)
  then have ltag: "length tag = 4" by (simp add: str_fence)
  have m: "match_at canon ?P7 (?P3 @ tag @ inner @ ?P3 @ ws2)"
    using tag ltag by (simp add: match_at_def str_fence)
  have ok: "successively (\<lambda>x y. x = 96 \<longrightarrow> canon y \<noteq> 74) (?P3 @ ws2)"
  proof -
    have "successively (\<lambda>x y. x = 96 \<longrightarrow> canon y \<noteq> 74) ?P3"
      by (simp add: canon_def)
    moreover have "successively (\<lambda>x y. x = 96 \<longrightarrow> canon y \<noteq> 74) ws2"
      by (rule successively_no_tick [OF t2])
    moreover have "ws2 = [] \<or> canon (hd ws2) \<noteq> 74"
      using ws2 is_ws_not_J by (cases ws2) simp_all
    ultimately show ?thesis by (auto simp: successively_append_iff successively_Cons)
  qed
  have "replace_all canon ?P7 (ws1 @ ?P3 @ tag @ inner @ ?P3 @ ws2)
      = ws1 @ replace_all canon ?P7 (?P3 @ tag @ inner @ ?P3 @ ws2)"
    by (rule skip_prefix [OF t1 canon_eq_tick])
  also have "replace_all canon ?P7 (?P3 @ tag @ inner @ ?P3 @ ws2)
      = replace_all canon ?P7 (inner @ ?P3 @ ws2)"
    using replace_all_match [OF _ m] ltag by simp
  also have "\<dots> = inner @ replace_all canon ?P7 (?P3 @ ws2)"
    by (rule skip_prefix [OF inner canon_eq_tick])
  also have "replace_all canon ?P7 (?P3 @ ws2) = ?P3 @ ws2"
    by (rule no_tick_J_identity [OF ok])
  finally have r1: "replace_all canon ?P7 (ws1 @ ?P3 @ tag @ inner @ ?P3 @ ws2)
      = (ws1 @ inner) @ ?P3 @ ws2" by simp
  have "replace_all id ?P3 ((ws1 @ inner) @ ?P3 @ ws2)
      = (ws1 @ inner) @ replace_all id ?P3 (?P3 @ ws2)"
    by (rule skip_prefix) (use t1 inner in auto)
  also have "replace_all id ?P3 (?P3 @ ws2) = replace_all id ?P3 ws2"
    using replace_all_match [of ?P3 id "?P3 @ ws2"] by (simp add: match_at_def)
  also have "\<dots> = ws2" by (rule skip_all [OF t2]) simp
  finally have r2: "replace_all id ?P3 ((ws1 @ inner) @ ?P3 @ ws2) = (ws1 @ inner) @ ws2" .
  show ?thesis
    unfolding fence_stripped_def str_fence r1 r2
    by (simp only: append_assoc trim_pad [OF ws1 ws2])
qed

lemma ok_tail:
  assumes "\<forall>c\<in>set ws2. is_ws c"
  shows "successively (\<lambda>x y. x = 96 \<longrightarrow> canon y \<noteq> 74) ([96, 96, 96] @ ws2)"
proof -
  from assms have t2: "96 \<notin> set ws2" using is_ws_not_tick by blast
  have "successively (\<lambda>x y. x = 96 \<longrightarrow> canon y \<noteq> 74) [96, 96, 96]"
    by (simp add: canon_def)
  moreover have "successively (\<lambda>x y. x = 96 \<longrightarrow> canon y \<noteq> 74) ws2"
    by (rule successively_no_tick [OF t2])
  moreover have "ws2 = [] \<or> canon (hd ws2) \<noteq> 74"
    using assms is_ws_not_J by (cases ws2) simp_all
  ultimately show ?thesis by (auto simp: successively_append_iff successively_Cons)
qed

lemma fenced_plain:
  assumes inner: "96 \<notin> set inner"
    and start: "inner = [] \<or> canon (hd inner) \<noteq> 74"
    and ws1: "\<forall>c\<in>set ws1. is_ws c" and ws2: "\<forall>c\<in>set ws2. is_ws c"
  shows "fence_stripped (ws1 @ str ''```'' @ inner @ str ''```'' @ ws2) = trim inner"
proof -
  let ?P7 = "[96, 96, 96, 106, 115, 111, 110] :: nat list"
  let ?P3 = "[96, 96, 96] :: nat list"
  let ?Q = "\<lambda>x y. x = (96::nat) \<longrightarrow> canon y \<noteq> 74"
  from ws1 ws2 have t1: "96 \<notin> set ws1" and t2: "96 \<notin> set ws2"
    using is_ws_not_tick by blast+
  have l1: "ws1 = [] \<or> last ws1 \<noteq> 96" using t1 last_in_set by fastforce
  have l2: "inner = [] \<or> last inner \<noteq> 96" using inner last_in_set by fastforce
  have a: "successively ?Q (inner @ ?P3 @ ws2)"
    using successively_no_tick [OF inner, of "\<lambda>y. canon y \<noteq> 74"] ok_tail [OF ws2] l2
    by (auto simp: successively_append_iff)
  have "canon (hd (inner @ ?P3 @ ws2)) \<noteq> 74"
    using start by (cases inner) (simp_all add: canon_def)
  with a have b: "successively ?Q (?P3 @ inner @ ?P3 @ ws2)"
    by (simp add: successively_Cons canon_def)
  have ok: "successively ?Q (ws1 @ ?P3 @ inner @ ?P3 @ ws2)"
    using successively_no_tick [OF t1, of "\<lambda>y. canon y \<noteq> 74"] b l1
    by (auto simp: successively_append_iff)
  have r1: "replace_all canon ?P7 (ws1 @ ?P3 @ inner @ ?P3 @ ws2) = ws1 @ ?P3 @ inner @ ?P3 @ ws2"
    by (rule no_tick_J_identity [OF ok])
  have "replace_all id ?P3 (ws1 @ ?P3 @ inner @ ?P3 @ ws2)
      = ws1 @ replace_all id ?P3 (?P3 @ inner @ ?P3 @ ws2)"
    by (rule skip_prefix [OF t1]) simp
  also have "replace_all id ?P3 (?P3 @ inner @ ?P3 @ ws2) = replace_all id ?P3 (inner @ ?P3 @ ws2)"
    using replace_all_match [of ?P3 id "?P3 @ inner @ ?P3 @ ws2"] by (simp add: match_at_def)
  also have "\<dots> = inner @ replace_all id ?P3 (?P3 @ ws2)"
    by (rule skip_prefix [OF inner]) simp
  also have "replace_all id ?P3 (?P3 @ ws2) = replace_all id ?P3 ws2"
    using replace_all_match [of ?P3 id "?P3 @ ws2"] by (simp add: match_at_def)
  also have "\<dots> = ws2" by (rule skip_all [OF t2]) simp
  finally have r2: "replace_all id ?P3 (ws1 @ ?P3 @ inner @ ?P3 @ ws2) = ws1 @ inner @ ws2" .
  show ?thesis
    unfolding fence_stripped_def str_fence r1 r2
    by (rule trim_pad [OF ws1 ws2])
qed

lemma no_fence_stripped: "\<not> sublist (str ''```'') (fence_stripped raw)"
proof
  assume "sublist (str ''```'') (fence_stripped raw)"
  moreover have "sublist (fence_stripped raw)
      (replace_all id [96, 96, 96] (replace_all canon (str ''```json'') raw))"
    unfolding fence_stripped_def str_fence by (rule sublist_trim)
  ultimately have "sublist (str ''```'')
      (replace_all id [96, 96, 96] (replace_all canon (str ''```json'') raw))"
    by (rule sublist_order.order.trans)
  then show False by (simp add: str_fence no_fence_replace_all)
qed

lemma subseq_fence_stripped: "subseq (fence_stripped raw) raw"
proof -
  have "subseq (fence_stripped raw)
      (replace_all id (str ''```'') (replace_all canon (str ''```json'') raw))"
    unfolding fence_stripped_def by (rule sublist_imp_subseq [OF sublist_trim])
  also have "subseq \<dots> (replace_all canon (str ''```json'') raw)"
    by (rule subseq_replace_all)
  also have "subseq \<dots> raw" by (rule subseq_replace_all)
  finally show ?thesis .
qed

lemma fence_stripped_ends:
  "fence_stripped raw \<noteq> [] \<longrightarrow>
     \<not> is_ws (hd (fence_stripped raw)) \<and> \<not> is_ws (last (fence_stripped raw))"
  unfolding fence_stripped_def using trim_ends by blast

text \<open>
  C8. In both stages the text handed to the JSON parser is the raw response with the fence
  markers removed and the surrounding white space trimmed: \<open>runChunk\<close> and
  \<open>runFinalPremium\<close> parse \<open>fence_stripped raw\<close>. That text holds no run of three
  backticks, neither starts nor ends with white space, and arises from the raw response by
  deletions only. A response that is a block fenced by three backticks, with the tag
  \<open>json\<close> in any letter casing or with no tag, and with white space around it, is parsed
  as the trimmed inside of the block.
\<close>

theorem fences_stripped_before_parsing:
  "fst (runChunk e chunk sent) =
     (case generateContent e (length sent) (buildChunkPrompt chunk) of
        Inl err \<Rightarrow> Inl err
      | Inr raw \<Rightarrow>
          (case JSON_parse_partial e (fence_stripped raw) of
             Inr p \<Rightarrow> Inr p
           | Inl err \<Rightarrow> Inr (PObj fallback)))
   \<and> fst (runFinalPremium e a sent) =
     (case generateContent e (length sent) (buildPremiumPrompt e a) of
        Inl err \<Rightarrow> Inl err
      | Inr raw \<Rightarrow> JSON_parse_report e (fence_stripped raw))
   \<and> \<not> sublist (str ''```'') (fence_stripped raw)
   \<and> (fence_stripped raw \<noteq> [] \<longrightarrow>
        \<not> is_ws (hd (fence_stripped raw)) \<and> \<not> is_ws (last (fence_stripped raw)))
   \<and> subseq (fence_stripped raw) raw
   \<and> (\<forall>tag inner ws1 ws2.
        map canon tag = map canon (str ''json'') \<and> 96 \<notin> set inner \<and>
        (\<forall>c\<in>set ws1. is_ws c) \<and> (\<forall>c\<in>set ws2. is_ws c) \<longrightarrow>
        fence_stripped (ws1 @ str ''```'' @ tag @ inner @ str ''```'' @ ws2) = trim inner)
   \<and> (\<forall>inner ws1 ws2.
        96 \<notin> set inner \<and> (inner = [] \<or> canon (hd inner) \<noteq> 74) \<and>
        (\<forall>c\<in>set ws1. is_ws c) \<and> (\<forall>c\<in>set ws2. is_ws c) \<longrightarrow>
        fence_stripped (ws1 @ str ''```'' @ inner @ str ''```'' @ ws2) = trim inner)"
proof -
  have "fst (runChunk e chunk sent) =
     (case generateContent e (length sent) (buildChunkPrompt chunk) of
        Inl err \<Rightarrow> Inl err
      | Inr raw \<Rightarrow>
          (case JSON_parse_partial e (fence_stripped raw) of
             Inr p \<Rightarrow> Inr p
           | Inl err \<Rightarrow> Inr (PObj fallback)))"
    by (simp add: runChunk_eq chunk_result_def)
  moreover note runFinalPremium_eq [of e a sent] no_fence_stripped [of raw]
    fence_stripped_ends [of raw] subseq_fence_stripped [of raw]
  moreover have "\<forall>tag inner ws1 ws2.
        map canon tag = map canon (str ''json'') \<and> 96 \<notin> set inner \<and>
        (\<forall>c\<in>set ws1. is_ws c) \<and> (\<forall>c\<in>set ws2. is_ws c) \<longrightarrow>
        fence_stripped (ws1 @ str ''```'' @ tag @ inner @ str ''```'' @ ws2) = trim inner"
    using fenced_json by blast
  moreover have "\<forall>inner ws1 ws2.
        96 \<notin> set inner \<and> (inner = [] \<or> canon (hd inner) \<noteq> 74) \<and>
        (\<forall>c\<in>set ws1. is_ws c) \<and> (\<forall>c\<in>set ws2. is_ws c) \<longrightarrow>
        fence_stripped (ws1 @ str ''```'' @ inner @ str ''```'' @ ws2) = trim inner"
    using fenced_plain by blast
  ultimately show ?thesis by blast
qed

theorem fences_stripped_before_parsing_witness:
  \<open>fence_stripped answer_60 = str ''{"pos":60,"neg":30,"neu":10}''
   \<and> fence_stripped answer_report = str ''{"positivePercentage":99,"contentIdeas":["q&a"]}''
   \<and> \<not> sublist (str ''```'') (fence_stripped answer_60)
   \<and> subseq (fence_stripped answer_60) answer_60
   \<and> fst (runChunk (toy_env [Inr answer_60]) [str ''nice video''] [])
       = Inr (PObj \<lparr>pos = Some (Fin 60), neg = Some (Fin 30), neu = Some (Fin 10),
                    praise = None, pain = None, themes = None\<rparr>)
   \<and> fst (runFinalPremium (toy_env [Inr answer_report]) (aggregate_of []) [])
       = Inr [(str ''positivePercentage'', JNum (Fin 99)),
              (str ''contentIdeas'', JArr [JStr (str ''q&a'')])]\<close>
proof -
  note T1 = fences_stripped_before_parsing
    [of "toy_env [Inr answer_60]" "[str ''nice video'']" "[]" "aggregate_of []" answer_60]
  note T2 = fences_stripped_before_parsing
    [of "toy_env [Inr answer_report]" "[str ''nice video'']" "[]" "aggregate_of []" answer_report]
  let ?in60 = \<open>str '' {"pos":60,"neg":30,"neu":10} ''\<close>
  let ?inrep = \<open>str ''{"positivePercentage":99,"contentIdeas":["q&a"]}''\<close>
  have tagged: "map canon tag = map canon (str ''json'') \<Longrightarrow> 96 \<notin> set inner \<Longrightarrow>
      (\<forall>c\<in>set ws1. is_ws c) \<Longrightarrow> (\<forall>c\<in>set ws2. is_ws c) \<Longrightarrow>
      fence_stripped (ws1 @ str ''```'' @ tag @ inner @ str ''```'' @ ws2) = trim inner"
    for tag inner ws1 ws2
    using T1 by blast
  have "fence_stripped ([] @ str ''```'' @ str ''JSON'' @ ?in60 @ str ''```'' @ str '' '') = trim ?in60"
    by (rule tagged) (simp_all add: str_def canon_def is_ws_def)
  moreover have "[] @ str ''```'' @ str ''JSON'' @ ?in60 @ str ''```'' @ str '' '' = answer_60"
    by (simp add: answer_60_def str_def)
  moreover have \<open>trim ?in60 = str ''{"pos":60,"neg":30,"neu":10}''\<close>
    by (simp add: trim_def is_ws_def str_def)
  ultimately have f60: \<open>fence_stripped answer_60 = str ''{"pos":60,"neg":30,"neu":10}''\<close>
    by (simp only:)
  have "fence_stripped ([] @ str ''```'' @ str ''json'' @ ?inrep @ str ''```'' @ []) = trim ?inrep"
    by (rule tagged) (simp_all add: str_def canon_def is_ws_def)
  moreover have "[] @ str ''```'' @ str ''json'' @ ?inrep @ str ''```'' @ [] = answer_report"
    by (simp add: answer_report_def str_def)
  moreover have "trim ?inrep = ?inrep"
    by (simp add: trim_def is_ws_def str_def)
  ultimately have frep: "fence_stripped answer_report = ?inrep"
    by (simp only:)
  from T1 have "fst (runChunk (toy_env [Inr answer_60]) [str ''nice video''] [])
      = (case generateContent (toy_env [Inr answer_60]) (length ([] :: jsstring list))
                (buildChunkPrompt [str ''nice video'']) of
           Inl err \<Rightarrow> Inl err
         | Inr raw \<Rightarrow>
             (case JSON_parse_partial (toy_env [Inr answer_60]) (fence_stripped raw) of
                Inr p \<Rightarrow> Inr p
              | Inl err \<Rightarrow> Inr (PObj fallback)))"
    by blast
  then have c: "fst (runChunk (toy_env [Inr answer_60]) [str ''nice video''] [])
      = Inr (PObj \<lparr>pos = Some (Fin 60), neg = Some (Fin 30), neu = Some (Fin 10),
                    praise = None, pain = None, themes = None\<rparr>)"
    by (simp add: toy_env_def scripted_def f60 toy_parse_partial_values)
  from T2 have "fst (runFinalPremium (toy_env [Inr answer_report]) (aggregate_of []) [])
      = (case generateContent (toy_env [Inr answer_report]) (length ([] :: jsstring list))
                (buildPremiumPrompt (toy_env [Inr answer_report]) (aggregate_of [])) of
           Inl err \<Rightarrow> Inl err
         | Inr raw \<Rightarrow> JSON_parse_report (toy_env [Inr answer_report]) (fence_stripped raw))"
    by blast
  then have p: "fst (runFinalPremium (toy_env [Inr answer_report]) (aggregate_of []) [])
      = Inr [(str ''positivePercentage'', JNum (Fin 99)),
              (str ''contentIdeas'', JArr [JStr (str ''q&a'')])]"
    by (simp add: toy_env_def scripted_def frep toy_parse_report_values)
  from T1 have "\<not> sublist (str ''```'') (fence_stripped answer_60)"
    "subseq (fence_stripped answer_60) answer_60" by blast+
  with f60 frep c p show ?thesis by blast
qed

end
